theory Spec2Isabelle
  imports Complex_Main "HOL-Library.Log_Nat" "HOL-Library.Multiset"
begin

section \<open>JavaScript values\<close>

text \<open>
  The ingestion code is TypeScript whose cells are typed \<^verbatim>\<open>any\<close>. A cell is a JavaScript
  primitive: \<^verbatim>\<open>undefined\<close>, \<^verbatim>\<open>null\<close>, a boolean, a number or a string. A number is an
  IEEE-754 binary64 value: NaN, an infinity, or a finite double, which is carried here as
  the rational it denotes (the sign of zero is not kept).
\<close>

datatype jsnum = NaN | Fin rat | PosInf | NegInf

datatype jsval = JUndefined | JNull | JBool bool | JNum jsnum | JStr string

subsection \<open>Rounding to binary64\<close>

text \<open>
  \<open>binade a\<close> is the exponent \<open>e\<close> with \<open>2 ^ e \<le> a < 2 ^ (e + 1)\<close> of a positive rational
  (from the bit lengths of its numerator and denominator),
  \<open>rne\<close> rounds to the nearest integer with ties to even, and \<open>fl64\<close> is the binary64
  value nearest to a rational: 53 significant bits, gradual underflow below \<open>2 ^ -1022\<close>,
  overflow to an infinity.
\<close>

definition binade :: "rat \<Rightarrow> int" where
  "binade a =
     (let (n, d) = quotient_of a;
          s = bitlen n - bitlen d
      in if power_int 2 s \<le> a then s else s - 1)"

definition rne :: "rat \<Rightarrow> int" where
  "rne x =
     (let f = \<lfloor>x\<rfloor>; d = x - of_int f
      in if d < 1 / 2 then f
         else if 1 / 2 < d then f + 1
         else if even f then f else f + 1)"

definition fl64 :: "rat \<Rightarrow> jsnum" where
  "fl64 q =
     (let a = \<bar>q\<bar>;
          e = max (binade a) (- 1022);
          r = of_int (rne (a * power_int 2 (52 - e))) * power_int 2 (e - 52)
      in if 2 ^ 1024 \<le> r then (if q < 0 then NegInf else PosInf)
         else Fin (if q < 0 then - r else r))"

subsection \<open>Arithmetic and comparison of numbers\<close>

definition isNaN :: "jsnum \<Rightarrow> bool" where
  "isNaN n = (n = NaN)"

fun js_add :: "jsnum \<Rightarrow> jsnum \<Rightarrow> jsnum" where
  "js_add NaN _ = NaN"
| "js_add _ NaN = NaN"
| "js_add (Fin x) (Fin y) = fl64 (x + y)"
| "js_add PosInf NegInf = NaN"
| "js_add NegInf PosInf = NaN"
| "js_add PosInf _ = PosInf"
| "js_add _ PosInf = PosInf"
| "js_add NegInf _ = NegInf"
| "js_add _ NegInf = NegInf"

fun js_div :: "jsnum \<Rightarrow> jsnum \<Rightarrow> jsnum" where
  "js_div NaN _ = NaN"
| "js_div _ NaN = NaN"
| "js_div (Fin x) (Fin y) =
     (if y = 0 then (if x = 0 then NaN else if 0 < x then PosInf else NegInf)
      else fl64 (x / y))"
| "js_div (Fin x) _ = Fin 0"
| "js_div PosInf (Fin y) = (if y < 0 then NegInf else PosInf)"
| "js_div NegInf (Fin y) = (if y < 0 then PosInf else NegInf)"
| "js_div _ _ = NaN"

fun js_lt :: "jsnum \<Rightarrow> jsnum \<Rightarrow> bool" where
  "js_lt NaN _ = False"
| "js_lt _ NaN = False"
| "js_lt (Fin x) (Fin y) = (x < y)"
| "js_lt NegInf NegInf = False"
| "js_lt NegInf _ = True"
| "js_lt _ NegInf = False"
| "js_lt PosInf _ = False"
| "js_lt _ PosInf = True"

definition js_gt :: "jsnum \<Rightarrow> jsnum \<Rightarrow> bool" where
  "js_gt a b = js_lt b a"

text \<open>The \<^verbatim>\<open>length\<close> of an array as a number, and the literal \<^verbatim>\<open>0.8\<close>.\<close>

definition num_of_length :: "nat \<Rightarrow> jsnum" where
  "num_of_length n = fl64 (of_nat n)"

definition lit_0_8 :: jsnum where
  "lit_0_8 = fl64 (8 / 10)"

subsection \<open>\<^verbatim>\<open>Number(v)\<close>\<close>

text \<open>
  The conversion \<^verbatim>\<open>Number(v)\<close> of the language: \<^verbatim>\<open>undefined\<close> gives NaN, \<^verbatim>\<open>null\<close> gives 0,
  a boolean 0 or 1, and a string is trimmed of white space and read as a numeric literal
  (the empty string gives 0; an optional sign before a decimal literal with optional
  fraction and exponent, or \<^verbatim>\<open>Infinity\<close>; an unsigned binary, octal or hexadecimal integer
  literal); every other string gives NaN. Strings are byte strings here, so only the
  ASCII white space characters are trimmed.
\<close>

definition is_ws :: "char \<Rightarrow> bool" where
  "is_ws c = (c \<in> set [CHR 0x09, CHR 0x0A, CHR 0x0B, CHR 0x0C, CHR 0x0D, CHR '' ''])"

definition trim :: "string \<Rightarrow> string" where
  "trim s = rev (dropWhile is_ws (rev (dropWhile is_ws s)))"

definition is_digit :: "char \<Rightarrow> bool" where
  "is_digit c = (c \<in> set ''0123456789'')"

definition digit_val :: "char \<Rightarrow> nat" where
  "digit_val c =
     (if c \<in> set ''0123456789'' then of_char c - 48
      else if c \<in> set ''abcdef'' then of_char c - 87
      else if c \<in> set ''ABCDEF'' then of_char c - 55
      else 0)"

definition is_radix_digit :: "nat \<Rightarrow> char \<Rightarrow> bool" where
  "is_radix_digit b c = (c \<in> set ''0123456789abcdefABCDEF'' \<and> digit_val c < b)"

definition digits_val :: "nat \<Rightarrow> string \<Rightarrow> nat" where
  "digits_val b ds = foldl (\<lambda>acc c. b * acc + digit_val c) 0 ds"

fun radix_prefix :: "string \<Rightarrow> (nat \<times> string) option" where
  "radix_prefix (z # c # ds) =
     (if z \<noteq> CHR ''0'' then None
      else if c = CHR ''x'' \<or> c = CHR ''X'' then Some (16, ds)
      else if c = CHR ''o'' \<or> c = CHR ''O'' then Some (8, ds)
      else if c = CHR ''b'' \<or> c = CHR ''B'' then Some (2, ds)
      else None)"
| "radix_prefix _ = None"

fun parse_exponent :: "string \<Rightarrow> int option" where
  "parse_exponent [] = Some 0"
| "parse_exponent (c # r) =
     (if c = CHR ''e'' \<or> c = CHR ''E'' then
        (let (sg, ds) = (case r of
                           s # t \<Rightarrow> if s = CHR ''+'' then (1, t)
                                    else if s = CHR ''-'' then (- 1, t) else (1, r)
                         | [] \<Rightarrow> (1, r))
         in if ds \<noteq> [] \<and> list_all is_digit ds then Some (sg * int (digits_val 10 ds))
            else None)
      else None)"

text \<open>An unsigned decimal literal; the exact value of a finite one is not yet rounded.\<close>

definition unsigned_decimal :: "string \<Rightarrow> jsnum" where
  "unsigned_decimal u =
     (if u = ''Infinity'' then PosInf
      else
        let ip = takeWhile is_digit u;
            r1 = dropWhile is_digit u;
            (fp, r2) = (case r1 of
                          c # t \<Rightarrow> if c = CHR ''.''
                                   then (takeWhile is_digit t, dropWhile is_digit t)
                                   else ([], r1)
                        | [] \<Rightarrow> ([], r1))
        in if ip = [] \<and> fp = [] then NaN
           else (case parse_exponent r2 of
                   None \<Rightarrow> NaN
                 | Some ex \<Rightarrow>
                     Fin (of_nat (digits_val 10 (ip @ fp)) / 10 ^ length fp
                          * power_int 10 ex)))"

definition signed_decimal :: "string \<Rightarrow> jsnum" where
  "signed_decimal t =
     (let (neg, u) = (case t of
                        s # r \<Rightarrow> if s = CHR ''+'' then (False, r)
                                 else if s = CHR ''-'' then (True, r) else (False, t)
                      | [] \<Rightarrow> (False, t))
      in case unsigned_decimal u of
           Fin q \<Rightarrow> fl64 (if neg then - q else q)
         | PosInf \<Rightarrow> (if neg then NegInf else PosInf)
         | _ \<Rightarrow> NaN)"

definition string_to_number :: "string \<Rightarrow> jsnum" where
  "string_to_number s =
     (let t = trim s
      in if t = [] then Fin 0
         else (case radix_prefix t of
                 Some (b, ds) \<Rightarrow>
                   if ds \<noteq> [] \<and> list_all (is_radix_digit b) ds
                   then fl64 (of_nat (digits_val b ds)) else NaN
               | None \<Rightarrow> signed_decimal t))"

fun Number :: "jsval \<Rightarrow> jsnum" where
  "Number JUndefined = NaN"
| "Number JNull = Fin 0"
| "Number (JBool b) = Fin (if b then 1 else 0)"
| "Number (JNum n) = n"
| "Number (JStr s) = string_to_number s"

text \<open>Truthiness, as \<^verbatim>\<open>||\<close> tests it: the falsy values are \<^verbatim>\<open>undefined\<close>, \<^verbatim>\<open>null\<close>,
  \<^verbatim>\<open>false\<close>, 0, NaN and the empty string.\<close>

fun truthy :: "jsval \<Rightarrow> bool" where
  "truthy JUndefined = False"
| "truthy JNull = False"
| "truthy (JBool b) = b"
| "truthy (JNum n) = (n \<noteq> NaN \<and> n \<noteq> Fin 0)"
| "truthy (JStr s) = (s \<noteq> [])"

definition js_or :: "jsval \<Rightarrow> jsval \<Rightarrow> jsval" where
  "js_or a b = (if truthy a then a else b)"

section \<open>Rows\<close>

text \<open>
  A row is a JavaScript object from column names to cells, kept as an association list in
  the order the keys were first assigned. Reading a key the object does not have gives
  \<^verbatim>\<open>undefined\<close>; assigning an existing key replaces its cell in place.
\<close>

type_synonym row = "(string \<times> jsval) list"

definition row_get :: "row \<Rightarrow> string \<Rightarrow> jsval" where
  "row_get r c = (case map_of r c of None \<Rightarrow> JUndefined | Some v \<Rightarrow> v)"

fun obj_set :: "string \<Rightarrow> jsval \<Rightarrow> row \<Rightarrow> row" where
  "obj_set k v [] = [(k, v)]"
| "obj_set k v (p # ps) = (if fst p = k then (k, v) # ps else p # obj_set k v ps)"

section \<open>Type inference: \<^verbatim>\<open>LocalLLMService.inferDataTypes\<close>\<close>

text \<open>
  \<^verbatim>\<open>Date.parse\<close> accepts ISO-8601 strings and whatever else the engine chooses, so it is a
  parameter of the model: \<open>Date_parse v\<close> is the number \<^verbatim>\<open>Date.parse(v)\<close> returns.
\<close>

definition column_sample :: "row list \<Rightarrow> string \<Rightarrow> jsval list" where
  "column_sample data column =
     filter (\<lambda>val. val \<noteq> JNull \<and> val \<noteq> JUndefined \<and> val \<noteq> JStr [])
       (map (\<lambda>row. row_get row column) (take 100 data))"

definition infer_column :: "(jsval \<Rightarrow> jsnum) \<Rightarrow> row list \<Rightarrow> string \<Rightarrow> string" where
  "infer_column Date_parse data column =
     (let sample = column_sample data column
      in if length sample = 0 then ''unknown''
         else
           let numericCount = length (filter (\<lambda>val. \<not> isNaN (Number val)) sample);
               dateCount = length (filter (\<lambda>val. \<not> isNaN (Date_parse val)) sample)
           in if js_gt (js_div (num_of_length numericCount) (num_of_length (length sample))) lit_0_8
              then ''numeric''
              else if js_gt (js_div (num_of_length dateCount) (num_of_length (length sample))) lit_0_8
              then ''date''
              else ''text'')"

definition inferDataTypes ::
  "(jsval \<Rightarrow> jsnum) \<Rightarrow> row list \<Rightarrow> string list \<Rightarrow> (string \<rightharpoonup> string)" where
  "inferDataTypes Date_parse data columns =
     fold (\<lambda>column types. types(column \<mapsto> infer_column Date_parse data column))
       columns Map.empty"

text \<open>
  The classification rule in the words of the specification, in exact arithmetic: the
  fractions are rationals and the threshold is \<open>8 / 10\<close>.
\<close>

definition numeric_fraction :: "jsval list \<Rightarrow> rat" where
  "numeric_fraction sample =
     of_nat (length (filter (\<lambda>v. Number v \<noteq> NaN) sample)) / of_nat (length sample)"

definition date_fraction :: "(jsval \<Rightarrow> jsnum) \<Rightarrow> jsval list \<Rightarrow> rat" where
  "date_fraction Date_parse sample =
     of_nat (length (filter (\<lambda>v. Date_parse v \<noteq> NaN) sample)) / of_nat (length sample)"

definition classify_rule :: "(jsval \<Rightarrow> jsnum) \<Rightarrow> jsval list \<Rightarrow> string" where
  "classify_rule Date_parse sample =
     (if sample = [] then ''unknown''
      else if 8 / 10 < numeric_fraction sample then ''numeric''
      else if 8 / 10 < date_fraction Date_parse sample then ''date''
      else ''text'')"

section \<open>Numeric eligibility checks\<close>

text \<open>
  \<^verbatim>\<open>DashboardRenderer\<close> (AnalyticsPreview.tsx) takes the columns from the keys of the first
  row and keeps a column when some row of the first 50 holds a cell that is not \<^verbatim>\<open>''\<close> and
  that \<^verbatim>\<open>Number\<close> does not turn into NaN. \<^verbatim>\<open>getFileStats\<close> asks the same of every row of the
  first 100.
\<close>

definition numeric_cell :: "row \<Rightarrow> string \<Rightarrow> bool" where
  "numeric_cell row col = (\<not> isNaN (Number (row_get row col)) \<and> row_get row col \<noteq> JStr [])"

definition dashboard_numeric :: "row list \<Rightarrow> string \<Rightarrow> bool" where
  "dashboard_numeric data col = list_ex (\<lambda>row. numeric_cell row col) (take 50 data)"

definition dashboard_numericColumns :: "row list \<Rightarrow> string list" where
  "dashboard_numericColumns data =
     (case data of
        [] \<Rightarrow> []
      | first # _ \<Rightarrow> filter (dashboard_numeric data) (map fst first))"

definition stats_numeric :: "row list \<Rightarrow> string \<Rightarrow> bool" where
  "stats_numeric data col = list_all (\<lambda>row. numeric_cell row col) (take 100 data)"

section \<open>The file service\<close>

subsection \<open>Records\<close>

record ParsedData =
  data :: "row list"
  columns :: "string list"
  rowCount :: nat
  preview :: "row list"

datatype file_type = Csv | Xlsx

text \<open>
  \<^verbatim>\<open>FileData\<close> has the fields of \<^verbatim>\<open>ParsedData\<close> and \<^verbatim>\<open>id\<close>, \<^verbatim>\<open>name\<close>, \<^verbatim>\<open>type\<close>, \<^verbatim>\<open>size\<close> and
  \<^verbatim>\<open>uploadedAt\<close>. The source keeps \<^verbatim>\<open>uploadedAt\<close> as the ISO-8601 text of the instant and
  reads it back with \<^verbatim>\<open>new Date(...).getTime()\<close>; the model keeps the instant itself, in
  milliseconds since the epoch.
\<close>

record FileData = ParsedData +
  fileId :: string
  fileName :: string
  fileType :: file_type
  fileSize :: nat
  uploadedAt :: int

text \<open>The browser's \<^verbatim>\<open>File\<close>: its name, its declared size and its bytes.\<close>

record File =
  upload_name :: string
  upload_size :: nat
  upload_content :: string

datatype error = Error string

subsection \<open>The libraries and the browser\<close>

text \<open>
  \<^verbatim>\<open>Papa.parse\<close> (papaparse) and \<^verbatim>\<open>XLSX.read\<close> with \<^verbatim>\<open>XLSX.utils.sheet_to_json\<close> (xlsx) are
  third-party libraries, and \<^verbatim>\<open>localStorage\<close> is the browser's; none of them is part of
  the sources. They are parameters of the model, collected in an environment.

  \<^item> \<^verbatim>\<open>Papa.parse(file, {header: true, skipEmptyLines: true, ...})\<close> either calls
    \<^verbatim>\<open>complete\<close> with results (the messages of \<^verbatim>\<open>results.errors\<close>, \<^verbatim>\<open>results.data\<close> and
    \<^verbatim>\<open>results.meta.fields\<close>, which may be undefined) or calls \<^verbatim>\<open>error\<close> with a message.
  \<^item> Reading the workbook either fails in the \<^verbatim>\<open>FileReader\<close>, or throws inside the
    \<^verbatim>\<open>try\<close> block, or gives the \<^verbatim>\<open>jsonData\<close> of the first sheet: no row at all, or a
    header row and the rows after it. The source casts the header row to \<^verbatim>\<open>string[]\<close>;
    the model takes header cells that are strings.
  \<^item> \<^verbatim>\<open>localStorage.setItem\<close> may throw (a full quota); \<open>setItem_ok\<close> says whether the
    browser accepts the serialized map.
\<close>

record papa_results =
  results_errors :: "string list"
  results_data :: "row list"
  meta_fields :: "string list option"

datatype papa_outcome = Complete papa_results | PapaError string

datatype xlsx_outcome =
    ReaderError
  | ReadThrows string
  | JsonData "(string list \<times> jsval list list) option"

record env =
  Papa_parse :: "string \<Rightarrow> papa_outcome"
  XLSX_first_sheet :: "string \<Rightarrow> xlsx_outcome"
  setItem_ok :: "(string \<times> FileData) list \<Rightarrow> bool"

subsection \<open>\<^verbatim>\<open>parseCSV\<close>\<close>

definition parseCSV :: "env \<Rightarrow> File \<Rightarrow> error + ParsedData" where
  "parseCSV e file =
     (case Papa_parse e (upload_content file) of
        Complete results \<Rightarrow>
          if length (results_errors results) > 0
          then Inl (Error (''CSV parsing error: '' @ hd (results_errors results)))
          else
            let data = results_data results;
                columns = (case meta_fields results of Some fs \<Rightarrow> fs | None \<Rightarrow> []);
                rowCount = length data;
                preview = take 10 data
            in Inr \<lparr>data = data, columns = columns, rowCount = rowCount, preview = preview\<rparr>
      | PapaError message \<Rightarrow> Inl (Error (''Failed to parse CSV: '' @ message)))"

subsection \<open>\<^verbatim>\<open>parseXLSX\<close>\<close>

text \<open>An array read at an index it does not have gives \<^verbatim>\<open>undefined\<close>.\<close>

definition array_at :: "jsval list \<Rightarrow> nat \<Rightarrow> jsval" where
  "array_at row index = (if index < length row then row ! index else JUndefined)"

text \<open>\<^verbatim>\<open>headers.forEach((header, index) => { obj[header] = row[index] || '' })\<close>\<close>

definition row_object :: "string list \<Rightarrow> jsval list \<Rightarrow> row" where
  "row_object headers row =
     foldl (\<lambda>obj (header, index). obj_set header (js_or (array_at row index) (JStr [])) obj)
       [] (zip headers [0 ..< length headers])"

definition parseXLSX :: "env \<Rightarrow> File \<Rightarrow> error + ParsedData" where
  "parseXLSX e file =
     (case XLSX_first_sheet e (upload_content file) of
        ReaderError \<Rightarrow> Inl (Error ''Failed to read Excel file'')
      | ReadThrows err \<Rightarrow> Inl (Error (''Failed to parse Excel file: '' @ err))
      | JsonData None \<Rightarrow> Inl (Error ''Excel file is empty'')
      | JsonData (Some (headers, rows)) \<Rightarrow>
          let processedData = map (row_object headers) rows;
              columns = headers;
              rowCount = length processedData;
              preview = take 10 processedData
          in Inr \<lparr>data = processedData, columns = columns, rowCount = rowCount,
                   preview = preview\<rparr>)"

subsection \<open>The store\<close>

text \<open>
  \<open>files\<close> is the \<^verbatim>\<open>Map<string, FileData>\<close> in its iteration order, which is the order of
  first insertion. \<open>storage\<close> is the value under the storage key (absent at first), held as
  the map it serializes, and \<open>setItem_calls\<close> counts the writes made to it.
\<close>

record store =
  files :: "(string \<times> FileData) list"
  storage :: "(string \<times> FileData) list option"
  setItem_calls :: nat

definition new_store :: store where
  "new_store = \<lparr>files = [], storage = None, setItem_calls = 0\<rparr>"

fun Map_set :: "string \<Rightarrow> FileData \<Rightarrow> (string \<times> FileData) list \<Rightarrow> (string \<times> FileData) list" where
  "Map_set k v [] = [(k, v)]"
| "Map_set k v (p # ps) = (if fst p = k then (k, v) # ps else p # Map_set k v ps)"

definition Map_has :: "string \<Rightarrow> (string \<times> FileData) list \<Rightarrow> bool" where
  "Map_has k m = (k \<in> fst ` set m)"

definition Map_delete :: "string \<Rightarrow> (string \<times> FileData) list \<Rightarrow> (string \<times> FileData) list" where
  "Map_delete k m = filter (\<lambda>p. fst p \<noteq> k) m"

definition saveFilesToStorage :: "env \<Rightarrow> store \<Rightarrow> store" where
  "saveFilesToStorage e st =
     (if setItem_ok e (files st)
      then st\<lparr>storage := Some (files st), setItem_calls := setItem_calls st + 1\<rparr>
      else st\<lparr>setItem_calls := setItem_calls st + 1\<rparr>)"

subsection \<open>\<^verbatim>\<open>getFileType\<close>\<close>

definition to_lower :: "char \<Rightarrow> char" where
  "to_lower c =
     (if 65 \<le> (of_char c :: nat) \<and> (of_char c :: nat) \<le> 90
      then char_of (of_char c + 32 :: nat) else c)"

text \<open>\<^verbatim>\<open>s.split(sep)\<close> for a separator of one character: at least one piece.\<close>

fun split_on :: "char \<Rightarrow> string \<Rightarrow> string list" where
  "split_on sep [] = [[]]"
| "split_on sep (c # cs) =
     (if c = sep then [] # split_on sep cs
      else (case split_on sep cs of
              p # ps \<Rightarrow> (c # p) # ps
            | [] \<Rightarrow> [[c]]))"

definition getFileType :: "string \<Rightarrow> file_type option" where
  "getFileType filename =
     (let extension = last (split_on CHR ''.'' (map to_lower filename))
      in if extension = ''csv'' then Some Csv
         else if extension = ''xlsx'' \<or> extension = ''xls'' then Some Xlsx
         else None)"

subsection \<open>\<^verbatim>\<open>uploadFile\<close>\<close>

text \<open>
  \<open>new_id\<close> is what \<^verbatim>\<open>generateId()\<close> returns in this call and \<open>now\<close> the instant of
  \<^verbatim>\<open>new Date()\<close>. The result is the record or the thrown error, with the store after the
  call.
\<close>

definition uploadFile ::
  "env \<Rightarrow> string \<Rightarrow> int \<Rightarrow> File \<Rightarrow> store \<Rightarrow> (error + FileData) \<times> store" where
  "uploadFile e new_id now file st =
     (case getFileType (upload_name file) of
        None \<Rightarrow> (Inl (Error ''Unsupported file type. Please upload CSV or XLSX files.''), st)
      | Some ftype \<Rightarrow>
          (case (case ftype of Csv \<Rightarrow> parseCSV e file | Xlsx \<Rightarrow> parseXLSX e file) of
             Inl (Error message) \<Rightarrow>
               (Inl (Error (''Failed to process file: Error: '' @ message)), st)
           | Inr parsedData \<Rightarrow>
               let fileData = \<lparr>data = data parsedData, columns = columns parsedData,
                                rowCount = rowCount parsedData, preview = preview parsedData,
                                fileId = new_id, fileName = upload_name file,
                                fileType = ftype, fileSize = upload_size file,
                                uploadedAt = now\<rparr>
               in (Inr fileData,
                   saveFilesToStorage e (st\<lparr>files := Map_set (fileId fileData) fileData (files st)\<rparr>))))"

subsection \<open>\<^verbatim>\<open>getFiles\<close>, \<^verbatim>\<open>getFile\<close>, \<^verbatim>\<open>deleteFile\<close>\<close>

text \<open>
  \<^verbatim>\<open>Array.prototype.sort\<close> with a comparator is a stable sort: two elements the comparator
  does not order keep their order. \<open>js_sort\<close> inserts the elements one by one from the
  left, each after the elements that do not come after it.
\<close>

fun insert_sorted :: "('a \<Rightarrow> 'a \<Rightarrow> int) \<Rightarrow> 'a \<Rightarrow> 'a list \<Rightarrow> 'a list" where
  "insert_sorted cmp x [] = [x]"
| "insert_sorted cmp x (y # ys) =
     (if cmp x y < 0 then x # y # ys else y # insert_sorted cmp x ys)"

definition js_sort :: "('a \<Rightarrow> 'a \<Rightarrow> int) \<Rightarrow> 'a list \<Rightarrow> 'a list" where
  "js_sort cmp xs = foldl (\<lambda>acc x. insert_sorted cmp x acc) [] xs"

definition getFiles :: "store \<Rightarrow> FileData list" where
  "getFiles st = js_sort (\<lambda>a b. uploadedAt b - uploadedAt a) (map snd (files st))"

definition getFile :: "string \<Rightarrow> store \<Rightarrow> FileData option" where
  "getFile ident st = map_of (files st) ident"

definition deleteFile :: "env \<Rightarrow> string \<Rightarrow> store \<Rightarrow> bool \<times> store" where
  "deleteFile e ident st =
     (let deleted = Map_has ident (files st);
          st1 = st\<lparr>files := Map_delete ident (files st)\<rparr>
      in if deleted then (deleted, saveFilesToStorage e st1) else (deleted, st1))"

subsection \<open>\<^verbatim>\<open>getFileStats\<close>\<close>

text \<open>
  \<^verbatim>\<open>Math.min(...values)\<close> and \<^verbatim>\<open>Math.max(...values)\<close>, and the statistics object. Its two
  display strings (\<^verbatim>\<open>fileSize\<close>, \<^verbatim>\<open>uploadedAt\<close>) are formatted by the locale and are left
  out of the record.
\<close>

definition Math_min :: "jsnum list \<Rightarrow> jsnum" where
  "Math_min values =
     foldl (\<lambda>a b. if isNaN a \<or> isNaN b then NaN else if js_lt b a then b else a) PosInf values"

definition Math_max :: "jsnum list \<Rightarrow> jsnum" where
  "Math_max values =
     foldl (\<lambda>a b. if isNaN a \<or> isNaN b then NaN else if js_lt a b then b else a) NegInf values"

record sample_stats =
  stat_column :: string
  stat_min :: jsnum
  stat_max :: jsnum
  stat_avg :: jsnum
  stat_count :: nat

record file_stats =
  totalRows :: nat
  totalColumns :: nat
  numericColumns :: nat
  textColumns :: nat
  sampleStats :: "sample_stats option"

definition column_values :: "row list \<Rightarrow> string \<Rightarrow> jsnum list" where
  "column_values rows col =
     filter (\<lambda>val. \<not> isNaN val) (map (\<lambda>row. Number (row_get row col)) rows)"

definition getFileStats :: "string \<Rightarrow> store \<Rightarrow> file_stats option" where
  "getFileStats ident st =
     (case map_of (files st) ident of
        None \<Rightarrow> None
      | Some file \<Rightarrow>
          let numCols = filter (\<lambda>col. stats_numeric (data file) col) (columns file);
              stats = \<lparr>totalRows = rowCount file,
                       totalColumns = length (columns file),
                       numericColumns = length numCols,
                       textColumns = length (columns file) - length numCols,
                       sampleStats = None\<rparr>
          in if length numCols > 0 then
               let firstNumCol = hd numCols;
                   values = column_values (data file) firstNumCol
               in if length values > 0
                  then Some (stats\<lparr>sampleStats :=
                         Some \<lparr>stat_column = firstNumCol,
                               stat_min = Math_min values,
                               stat_max = Math_max values,
                               stat_avg = js_div (foldl js_add (Fin 0) values)
                                            (num_of_length (length values)),
                               stat_count = length values\<rparr>\<rparr>)
                  else Some stats
             else Some stats)"

subsection \<open>\<^verbatim>\<open>searchInFile\<close>\<close>

text \<open>
  \<^verbatim>\<open>String(value)\<close> of a cell; the digits of a number are \<^verbatim>\<open>Number.prototype.toString\<close>'s,
  a parameter. \<open>js_includes\<close> is \<^verbatim>\<open>String.prototype.includes\<close>.
\<close>

fun js_String :: "(jsnum \<Rightarrow> string) \<Rightarrow> jsval \<Rightarrow> string" where
  "js_String num_str JUndefined = ''undefined''"
| "js_String num_str JNull = ''null''"
| "js_String num_str (JBool b) = (if b then ''true'' else ''false'')"
| "js_String num_str (JNum n) = num_str n"
| "js_String num_str (JStr s) = s"

fun starts_with :: "string \<Rightarrow> string \<Rightarrow> bool" where
  "starts_with s [] = True"
| "starts_with [] (q # qs) = False"
| "starts_with (c # cs) (q # qs) = (c = q \<and> starts_with cs qs)"

fun js_includes :: "string \<Rightarrow> string \<Rightarrow> bool" where
  "js_includes [] q = (q = [])"
| "js_includes (c # cs) q = (starts_with (c # cs) q \<or> js_includes cs q)"

definition searchInFile :: "(jsnum \<Rightarrow> string) \<Rightarrow> string \<Rightarrow> string \<Rightarrow> store \<Rightarrow> row list" where
  "searchInFile num_str ident query st =
     (case map_of (files st) ident of
        None \<Rightarrow> []
      | Some file \<Rightarrow>
          let lowerQuery = map to_lower query
          in filter (\<lambda>row. list_ex (\<lambda>v. js_includes (map to_lower (js_String num_str v)) lowerQuery)
                              (map snd row))
               (data file))"

subsection \<open>Sequences of operations\<close>

text \<open>
  The operations of the service and the store each leaves behind. Only \<^verbatim>\<open>uploadFile\<close> and
  \<^verbatim>\<open>deleteFile\<close> assign \<^verbatim>\<open>this.files\<close> or write to the storage; the others read.
\<close>

datatype operation =
    Upload string int File
  | Delete string
  | ListFiles
  | GetFile string
  | Search string string
  | Stats string

fun apply_op :: "env \<Rightarrow> store \<Rightarrow> operation \<Rightarrow> store" where
  "apply_op e st (Upload new_id now file) = snd (uploadFile e new_id now file st)"
| "apply_op e st (Delete ident) = snd (deleteFile e ident st)"
| "apply_op e st ListFiles = st"
| "apply_op e st (GetFile ident) = st"
| "apply_op e st (Search ident query) = st"
| "apply_op e st (Stats ident) = st"

definition run :: "env \<Rightarrow> operation list \<Rightarrow> store \<Rightarrow> store" where
  "run e ops st = foldl (apply_op e) st ops"

text \<open>What a record holds when it is made: its row count and its preview.\<close>

definition record_ok :: "FileData \<Rightarrow> bool" where
  "record_ok f = (rowCount f = length (data f) \<and> preview f = take (min 10 (rowCount f)) (data f))"

section \<open>A reference CSV reader\<close>

text \<open>
  Modelled from the spec: \<^verbatim>\<open>Papa.parse\<close> of the papaparse library, which is not among the
  sources. The first line is the header row and gives the fields in left-to-right order;
  every later non-empty line becomes one row, a map from the fields to the strings as
  they appear, a field the line lacks being the empty string; an unterminated quoted
  field is a diagnosed error. Fields are separated by commas and lines by line feeds; a
  field in double quotes may hold commas, line feeds and doubled quotes.
\<close>

datatype csv_mode = FieldStart | Unquoted | Quoted | QuoteSeen

fun csv_scan ::
  "csv_mode \<Rightarrow> string \<Rightarrow> string list \<Rightarrow> string list list \<Rightarrow> string \<Rightarrow> string + string list list" where
  "csv_scan mode cur fs rs [] =
     (if mode = Quoted then Inl ''Quoted field unterminated'' else Inr (rs @ [fs @ [cur]]))"
| "csv_scan mode cur fs rs (c # cs) =
     (if mode = Quoted then
        (if c = CHR 0x22 then csv_scan QuoteSeen cur fs rs cs
         else csv_scan Quoted (cur @ [c]) fs rs cs)
      else if mode = QuoteSeen \<and> c = CHR 0x22 then csv_scan Quoted (cur @ [c]) fs rs cs
      else if mode = FieldStart \<and> c = CHR 0x22 then csv_scan Quoted cur fs rs cs
      else if c = CHR '','' then csv_scan FieldStart [] (fs @ [cur]) rs cs
      else if c = CHR 0x0A then csv_scan FieldStart [] [] (rs @ [fs @ [cur]]) cs
      else if mode = QuoteSeen then Inl ''Trailing quote on quoted field is malformed''
      else csv_scan Unquoted (cur @ [c]) fs rs cs)"

definition csv_row :: "string list \<Rightarrow> string list \<Rightarrow> row" where
  "csv_row header cells =
     foldl (\<lambda>obj (h, i). obj_set h (JStr (if i < length cells then cells ! i else [])) obj)
       [] (zip header [0 ..< length header])"

definition Papa_reference :: "string \<Rightarrow> papa_outcome" where
  "Papa_reference input =
     (case csv_scan FieldStart [] [] [] input of
        Inl message \<Rightarrow>
          Complete \<lparr>results_errors = [message], results_data = [], meta_fields = None\<rparr>
      | Inr records \<Rightarrow>
          (case filter (\<lambda>r. r \<noteq> [[]]) records of
             [] \<Rightarrow> Complete \<lparr>results_errors = [], results_data = [], meta_fields = None\<rparr>
           | header # lines \<Rightarrow>
               Complete \<lparr>results_errors = [], results_data = map (csv_row header) lines,
                         meta_fields = Some header\<rparr>))"

text \<open>
  The text of a CSV file from its records: the fields of a record joined by commas, every
  record ended by a line feed. A plain field holds no comma, line feed or double quote; a
  plain line is made of plain fields, the empty line being the one field \<open>[]\<close>; a plain
  record is a plain line other than the empty line.
\<close>

fun csv_line :: "string list \<Rightarrow> string" where
  "csv_line [] = []"
| "csv_line [f] = f"
| "csv_line (f # g # fs) = f @ CHR '','' # csv_line (g # fs)"

definition csv_text :: "string list list \<Rightarrow> string" where
  "csv_text records = concat (map (\<lambda>r. csv_line r @ [CHR 0x0A]) records)"

definition plain_field :: "string \<Rightarrow> bool" where
  "plain_field f = list_all (\<lambda>c. c \<noteq> CHR '','' \<and> c \<noteq> CHR 0x0A \<and> c \<noteq> CHR 0x22) f"

definition plain_line :: "string list \<Rightarrow> bool" where
  "plain_line r = (r \<noteq> [] \<and> list_all plain_field r)"

definition plain_record :: "string list \<Rightarrow> bool" where
  "plain_record r = (r \<noteq> [] \<and> r \<noteq> [[]] \<and> list_all plain_field r)"

section \<open>The CSV reader of the library\<close>

text \<open>
  Modelled from the spec: \<^verbatim>\<open>Papa.parse(text, {header: true, skipEmptyLines: true})\<close> of the
  papaparse library, which is not among the sources, with the steps by which the library
  decides what the text's lines and fields are and which texts it diagnoses. No line
  ending and no delimiter are configured, so the library guesses both from the text; a
  failed guess of the delimiter is a diagnosed error, and \<^verbatim>\<open>parseCSV\<close> rejects a file on any
  diagnosed error.

  \<^item> \<^verbatim>\<open>guessLineEndings\<close> looks at the first \<open>2 ^ 20\<close> characters with the quoted stretches
    removed and chooses among line feed, carriage return with line feed, and carriage
    return.
  \<^item> \<^verbatim>\<open>guessDelimiter\<close> reads the first ten lines with each of the candidates comma, tab,
    vertical bar, semicolon, record separator and unit separator, and keeps a candidate
    whose lines have more than 1.99 fields on average, more than the candidate kept
    before, with no more change of the field count from line to line. The field counts
    are array lengths, below \<open>2 ^ 32\<close>, and at most ten are added, so the sums are exact
    and the quotients compare as the exact ones do; the quotient \<open>0 / 0\<close> is \<open>None\<close>.
  \<^item> The text is read with the chosen line ending and delimiter. A field is quoted when
    it starts with a double quote; inside, a doubled quote stands for one quote. A text
    with a quote error is read no further here than to the error: the library goes on,
    but \<^verbatim>\<open>parseCSV\<close> rejects every result with an error and reads none of its rows, and a
    candidate delimiter under which the text has a quote error counts no line.
  \<^item> A header field equal to an earlier one is renamed with a suffix \<open>_k\<close> (as papaparse
    5.5 does), empty lines are dropped, the first line left gives the fields, and every
    other line becomes an object, with a diagnosed error when it has more or fewer cells
    than there are fields (the cells beyond the fields are not kept here).
\<close>

subsection \<open>\<^verbatim>\<open>guessLineEndings\<close>\<close>

text \<open>
  The replacement of every match of \<^verbatim>\<open>/"([^]*?)"/gm\<close> by the empty string: \<open>held\<close> is the
  text since an opening quote that has not met its closing quote yet.
\<close>

fun strip_quoted :: "string option \<Rightarrow> string \<Rightarrow> string" where
  "strip_quoted None [] = []"
| "strip_quoted (Some held) [] = held"
| "strip_quoted None (c # cs) =
     (if c = CHR 0x22 then strip_quoted (Some [c]) cs else c # strip_quoted None cs)"
| "strip_quoted (Some held) (c # cs) =
     (if c = CHR 0x22 then strip_quoted None cs else strip_quoted (Some (held @ [c])) cs)"

definition guessLineEndings :: "string \<Rightarrow> string" where
  "guessLineEndings input =
     (let s = strip_quoted None (take 1048576 input);
          r = split_on (CHR 0x0D) s;
          n = split_on (CHR 0x0A) s;
          nAppearsFirst = (length n > 1 \<and> length (hd n) < length (hd r))
      in if length r = 1 \<or> nAppearsFirst then [CHR 0x0A]
         else
           let numWithN = length (filter (\<lambda>p. take 1 p = [CHR 0x0A]) r)
           in if length r \<le> 2 * numWithN then [CHR 0x0D, CHR 0x0A] else [CHR 0x0D])"

subsection \<open>\<^verbatim>\<open>Parser.parse\<close>\<close>

fun Parser_parse ::
  "char \<Rightarrow> string \<Rightarrow> csv_mode \<Rightarrow> string \<Rightarrow> string list \<Rightarrow> string list list \<Rightarrow> string
     \<Rightarrow> string + string list list" where
  "Parser_parse delim newline mode cur fs rs [] =
     (if mode = Quoted then Inl ''Quoted field unterminated'' else Inr (rs @ [fs @ [cur]]))"
| "Parser_parse delim newline mode cur fs rs (c # cs) =
     (if mode = Quoted then
        (if c = CHR 0x22 then Parser_parse delim newline QuoteSeen cur fs rs cs
         else Parser_parse delim newline Quoted (cur @ [c]) fs rs cs)
      else if mode = QuoteSeen \<and> c = CHR 0x22 then
        Parser_parse delim newline Quoted (cur @ [c]) fs rs cs
      else if mode = FieldStart \<and> c = CHR 0x22 then
        Parser_parse delim newline Quoted cur fs rs cs
      else if c = delim then Parser_parse delim newline FieldStart [] (fs @ [cur]) rs cs
      else if newline = [c] then
        Parser_parse delim newline FieldStart [] [] (rs @ [fs @ [cur]]) cs
      else
        (case cs of
           c2 # cs2 \<Rightarrow>
             if newline = [c, c2] then
               Parser_parse delim newline FieldStart [] [] (rs @ [fs @ [cur]]) cs2
             else if mode = QuoteSeen then Inl ''Trailing quote on quoted field is malformed''
             else Parser_parse delim newline Unquoted (cur @ [c]) fs rs cs
         | [] \<Rightarrow>
             if mode = QuoteSeen then Inl ''Trailing quote on quoted field is malformed''
             else Parser_parse delim newline Unquoted (cur @ [c]) fs rs cs))"

subsection \<open>\<^verbatim>\<open>guessDelimiter\<close>\<close>

definition testEmptyLine :: "string list \<Rightarrow> bool" where
  "testEmptyLine s = (length s = 1 \<and> length (hd s) = 0)"

definition delimitersToGuess :: "char list" where
  "delimitersToGuess = [CHR '','', CHR 0x09, CHR ''|'', CHR '';'', CHR 0x1E, CHR 0x1F]"

definition preview_rows :: "char \<Rightarrow> string \<Rightarrow> string \<Rightarrow> string list list" where
  "preview_rows delim newline input =
     (case Parser_parse delim newline FieldStart [] [] [] input of
        Inl message \<Rightarrow> []
      | Inr rows \<Rightarrow> take 10 rows)"

text \<open>
  The loop over the lines of a preview: \<open>prev\<close> is \<^verbatim>\<open>fieldCountPrevRow\<close>, and the result is
  \<^verbatim>\<open>delta\<close> with the sum of the field counts.
\<close>

fun count_fields :: "nat option \<Rightarrow> nat \<Rightarrow> nat \<Rightarrow> string list list \<Rightarrow> nat \<times> nat" where
  "count_fields prev delta fieldSum [] = (delta, fieldSum)"
| "count_fields prev delta fieldSum (row # rows) =
     (if testEmptyLine row then count_fields prev delta fieldSum rows
      else
        let fieldCount = length row
        in case prev of
             None \<Rightarrow> count_fields (Some fieldCount) delta (fieldSum + fieldCount) rows
           | Some p \<Rightarrow>
               if fieldCount > 0 then
                 count_fields (Some fieldCount)
                   (delta + (if p \<le> fieldCount then fieldCount - p else p - fieldCount))
                   (fieldSum + fieldCount) rows
               else count_fields prev delta (fieldSum + fieldCount) rows)"

definition avgFieldCount :: "string list list \<Rightarrow> nat \<Rightarrow> rat option" where
  "avgFieldCount rows fieldSum =
     (let counted = length (filter (\<lambda>row. \<not> testEmptyLine row) rows)
      in if rows = [] then Some (of_nat fieldSum)
         else if counted = 0 then None
         else Some (of_nat fieldSum / of_nat counted))"

text \<open>The candidate kept so far: \<^verbatim>\<open>bestDelim\<close>, \<^verbatim>\<open>bestDelta\<close> and \<^verbatim>\<open>maxFieldCount\<close>.\<close>

definition guess_step :: "string \<Rightarrow> string \<Rightarrow> (char \<times> nat \<times> rat) option \<Rightarrow> char
    \<Rightarrow> (char \<times> nat \<times> rat) option" where
  "guess_step input newline best delim =
     (let rows = preview_rows delim newline input;
          (delta, fieldSum) = count_fields None 0 0 rows
      in case avgFieldCount rows fieldSum of
           None \<Rightarrow> best
         | Some avg \<Rightarrow>
             if (case best of
                   None \<Rightarrow> True
                 | Some (bestDelim, bestDelta, maxFieldCount) \<Rightarrow>
                     delta \<le> bestDelta \<and> maxFieldCount < avg)
                \<and> 199 / 100 < avg
             then Some (delim, delta, avg)
             else best)"

definition guessDelimiter :: "string \<Rightarrow> string \<Rightarrow> char option" where
  "guessDelimiter input newline =
     map_option fst (foldl (guess_step input newline) None delimitersToGuess)"

subsection \<open>Header and rows\<close>

function show_nat :: "nat \<Rightarrow> string" where
  "show_nat n =
     (if n < 10 then [char_of (48 + n)]
      else show_nat (n div 10) @ [char_of (48 + n mod 10)])"
  by pat_completeness auto
termination by (relation "measure id") auto

definition fresh_name :: "string list \<Rightarrow> string \<Rightarrow> nat \<Rightarrow> string" where
  "fresh_name used header suffixCount =
     (case find (\<lambda>k. header @ ''_'' @ show_nat k \<notin> set used)
             [suffixCount ..< suffixCount + length used + 1] of
        Some k \<Rightarrow> header @ ''_'' @ show_nat k
      | None \<Rightarrow> header)"

fun rename_loop :: "(string \<times> nat) list \<Rightarrow> string list \<Rightarrow> string list \<Rightarrow> string list" where
  "rename_loop headerCount usedHeaders [] = []"
| "rename_loop headerCount usedHeaders (header # rest) =
     (case map_of headerCount header of
        None \<Rightarrow> header # rename_loop ((header, 1) # headerCount) usedHeaders rest
      | Some n \<Rightarrow>
          let newHeader = fresh_name usedHeaders header n
          in newHeader
               # rename_loop ((header, n + 1) # headerCount) (newHeader # usedHeaders) rest)"

definition rename_headers :: "string list list \<Rightarrow> string list list" where
  "rename_headers rows =
     (case rows of [] \<Rightarrow> [] | first # others \<Rightarrow> rename_loop [] first first # others)"

definition processRow :: "string list \<Rightarrow> string list \<Rightarrow> row" where
  "processRow flds cells =
     foldl (\<lambda>obj (field, v). obj_set field (JStr v) obj) [] (zip flds cells)"

definition fieldMismatch :: "string list \<Rightarrow> string list \<Rightarrow> string list" where
  "fieldMismatch flds cells =
     (if length flds < length cells then
        [''Too many fields: expected '' @ show_nat (length flds) @ '' fields but parsed ''
           @ show_nat (length cells)]
      else if length cells < length flds then
        [''Too few fields: expected '' @ show_nat (length flds) @ '' fields but parsed ''
           @ show_nat (length cells)]
      else [])"

subsection \<open>\<^verbatim>\<open>Papa.parse\<close> of a string\<close>

definition Papa_parse_string :: "string \<Rightarrow> papa_outcome" where
  "Papa_parse_string input =
     (let newline = guessLineEndings input;
          guess = guessDelimiter input newline;
          delimiter = (case guess of Some d \<Rightarrow> d | None \<Rightarrow> CHR '','');
          delimiterError =
            (if guess = None
             then [''Unable to auto-detect delimiting character; defaulted to '' @ [CHR 0x27]
                     @ '','' @ [CHR 0x27]]
             else [])
      in case Parser_parse delimiter newline FieldStart [] [] [] input of
           Inl message \<Rightarrow>
             Complete \<lparr>results_errors = message # delimiterError, results_data = [],
                       meta_fields = Some []\<rparr>
         | Inr rows \<Rightarrow>
             (case filter (\<lambda>row. \<not> testEmptyLine row) (rename_headers rows) of
                [] \<Rightarrow>
                  Complete \<lparr>results_errors = delimiterError, results_data = [],
                            meta_fields = Some []\<rparr>
              | flds # lines \<Rightarrow>
                  Complete \<lparr>results_errors =
                              delimiterError @ concat (map (fieldMismatch flds) lines),
                            results_data = map (processRow flds) lines,
                            meta_fields = Some flds\<rparr>))"

subsection \<open>CSV documents\<close>












section \<open>Example inputs\<close>

text \<open>
  An environment with the reference CSV reader, a workbook reader that yields a given
  sheet, and a storage that accepts every write; and the inputs of the scenarios.
\<close>

definition example_env :: "(string list \<times> jsval list list) option \<Rightarrow> env" where
  "example_env sheet =
     \<lparr>Papa_parse = Papa_reference, XLSX_first_sheet = (\<lambda>_. JsonData sheet),
      setItem_ok = (\<lambda>_. True)\<rparr>"

text \<open>An engine's \<^verbatim>\<open>Date.parse\<close> on the strings of the examples.\<close>

definition example_Date_parse :: "jsval \<Rightarrow> jsnum" where
  "example_Date_parse v =
     (if v = JStr ''2024-01-15'' then Fin 1705276800000
      else if v = JStr ''2024-02-01'' then Fin 1706745600000
      else NaN)"

definition scenario_A_csv :: File where
  "scenario_A_csv =
     \<lparr>upload_name = ''data.csv'', upload_size = 24,
      upload_content = ''name,value'' @ [CHR 0x0A] @ ''a,1'' @ [CHR 0x0A] @ ''b,2''
                        @ [CHR 0x0A] @ ''c,3'' @ [CHR 0x0A]\<rparr>"

definition header_only_csv :: File where
  "header_only_csv =
     \<lparr>upload_name = ''empty.csv'', upload_size = 11,
      upload_content = ''name,value'' @ [CHR 0x0A]\<rparr>"

definition report_pdf :: File where
  "report_pdf = \<lparr>upload_name = ''report.pdf'', upload_size = 3, upload_content = ''pdf''\<rparr>"


definition malformed_csv :: File where
  "malformed_csv =
     \<lparr>upload_name = ''broken.csv'', upload_size = 15,
      upload_content = ''name,value'' @ [CHR 0x0A, CHR 0x22] @ ''a,1''\<rparr>"

text \<open>The store after the upload of the first example into an empty store.\<close>

definition scenario_A_store :: store where
  "scenario_A_store =
     snd (uploadFile (example_env None) ''f1'' 1700000000000 scenario_A_csv new_store)"

text \<open>The record that upload makes.\<close>

definition scenario_A_record :: FileData where
  "scenario_A_record =
     \<lparr>data = [[(''name'', JStr ''a''), (''value'', JStr ''1'')],
              [(''name'', JStr ''b''), (''value'', JStr ''2'')],
              [(''name'', JStr ''c''), (''value'', JStr ''3'')]],
      columns = [''name'', ''value''], rowCount = 3,
      preview = [[(''name'', JStr ''a''), (''value'', JStr ''1'')],
                 [(''name'', JStr ''b''), (''value'', JStr ''2'')],
                 [(''name'', JStr ''c''), (''value'', JStr ''3'')]],
      fileId = ''f1'', fileName = ''data.csv'', fileType = Csv, fileSize = 24,
      uploadedAt = 1700000000000\<rparr>"

text \<open>A session: two uploads, one of them refused, a search, two deletions, a listing.\<close>

definition example_session :: "operation list" where
  "example_session =
     [Upload ''f1'' 1700000000000 scenario_A_csv,
      Upload ''f2'' 1700000000001 report_pdf,
      Search ''f1'' ''a'',
      Upload ''f3'' 1700000000002 header_only_csv,
      Delete ''missing'',
      Delete ''f3'',
      ListFiles]"

text \<open>Two uploads at the same instant and a later one.\<close>

definition tie_store :: store where
  "tie_store =
     run (example_env None)
       [Upload ''a'' 1700000000000 scenario_A_csv,
        Upload ''b'' 1700000000000 header_only_csv,
        Upload ''c'' 1700000000005 scenario_A_csv]
       new_store"

text \<open>A column with one numeric cell among three, and one with nine among ten.\<close>

definition mixed_rows :: "row list" where
  "mixed_rows = [[(''a'', JStr ''1'')], [(''a'', JStr ''x'')], [(''a'', JStr ''y'')]]"

definition mostly_numeric_rows :: "row list" where
  "mostly_numeric_rows = replicate 9 [(''a'', JStr ''7'')] @ [[(''a'', JStr ''n/a'')]]"


text \<open>
  A workbook whose first sheet has the header \<open>item, qty\<close>, a row with the quantity 0 and
  a row without a quantity; the bytes of the file stand for the workbook.
\<close>

definition zero_cell_sheet :: "(string list \<times> jsval list list) option" where
  "zero_cell_sheet =
     Some ([''item'', ''qty''], [[JStr ''apple'', JNum (Fin 0)], [JStr ''pear'']])"

definition stock_xlsx :: File where
  "stock_xlsx = \<lparr>upload_name = ''stock.xlsx'', upload_size = 4, upload_content = ''book''\<rparr>"

text \<open>
  A CSV file of 101 data rows whose column \<open>v\<close> holds \<open>1\<close> in the first 100 rows and is
  blank in the last; its rows, the record its upload makes and the store after the upload
  into an empty store.
\<close>

definition blank_cell_csv :: File where
  "blank_cell_csv =
     \<lparr>upload_name = ''blank.csv'', upload_size = 407,
      upload_content = csv_text ([''k'', ''v''] # replicate 100 [''a'', ''1''] @ [[''b'', '''']])\<rparr>"

definition blank_cell_rows :: "row list" where
  "blank_cell_rows =
     replicate 100 [(''k'', JStr ''a''), (''v'', JStr ''1'')] @ [[(''k'', JStr ''b''), (''v'', JStr '''')]]"

definition blank_cell_record :: FileData where
  "blank_cell_record =
     \<lparr>data = blank_cell_rows, columns = [''k'', ''v''], rowCount = 101,
      preview = replicate 10 [(''k'', JStr ''a''), (''v'', JStr ''1'')],
      fileId = ''f1'', fileName = ''blank.csv'', fileType = Csv, fileSize = 407,
      uploadedAt = 1700000000000\<rparr>"

definition blank_cell_store :: store where
  "blank_cell_store =
     \<lparr>files = [(''f1'', blank_cell_record)], storage = Some [(''f1'', blank_cell_record)],
      setItem_calls = 1\<rparr>"

text \<open>A table of customers with one cell in capitals, for the search.\<close>

definition customer_record :: FileData where
  "customer_record =
     \<lparr>data = [[(''customer'', JStr ''ABC Corp''), (''total'', JStr ''10'')],
              [(''customer'', JStr ''Delta Ltd''), (''total'', JStr ''20'')],
              [(''customer'', JStr ''abc-shop''), (''total'', JStr ''30'')]],
      columns = [''customer'', ''total''], rowCount = 3,
      preview = [[(''customer'', JStr ''ABC Corp''), (''total'', JStr ''10'')],
                 [(''customer'', JStr ''Delta Ltd''), (''total'', JStr ''20'')],
                 [(''customer'', JStr ''abc-shop''), (''total'', JStr ''30'')]],
      fileId = ''c1'', fileName = ''customers.csv'', fileType = Csv, fileSize = 60,
      uploadedAt = 1700000000000\<rparr>"

definition customer_store :: store where
  "customer_store =
     \<lparr>files = [(''c1'', customer_record)], storage = Some [(''c1'', customer_record)],
      setItem_calls = 1\<rparr>"

text \<open>
  An environment with the library's reader, a one-column file, and a file with carriage
  return and line feed as line ending, quoted cells and empty lines.
\<close>

definition library_env :: env where
  "library_env =
     \<lparr>Papa_parse = Papa_parse_string, XLSX_first_sheet = (\<lambda>_. JsonData None),
      setItem_ok = (\<lambda>_. True)\<rparr>"



section \<open>Rounding lemmas\<close>

lemma rne_error: "\<bar>of_int (rne x) - x\<bar> \<le> 1 / 2"
  unfolding rne_def Let_def by (auto simp: abs_if) linarith+

lemma rne_of_int: "rne (of_int k) = k"
  unfolding rne_def Let_def by simp

lemma binade_bounds:
  assumes "0 < q"
  shows "power_int 2 (binade q) \<le> q \<and> q < power_int 2 (binade q + 1)"
proof -
  obtain n d where nd: "quotient_of q = (n, d)" by (cases "quotient_of q")
  have d: "0 < d" using nd by (rule quotient_of_denom_pos)
  have q: "q = of_int n / of_int d" using nd by (rule quotient_of_div)
  have n: "0 < n" using assms d q by (simp add: zero_less_divide_iff)
  define ln where "ln = floorlog 2 (nat n)"
  define ld where "ld = floorlog 2 (nat d)"
  have bn: "2 ^ (ln - 1) \<le> nat n \<and> nat n < 2 ^ ln"
    unfolding ln_def using floorlog_bounds[of "nat n" 2] n by simp
  have bd: "2 ^ (ld - 1) \<le> nat d \<and> nat d < 2 ^ ld"
    unfolding ld_def using floorlog_bounds[of "nat d" 2] d by simp
  have ln1: "1 \<le> ln" using bn n by (cases ln) auto
  have ld1: "1 \<le> ld" using bd d by (cases ld) auto
  have rn: "(2::rat) ^ (ln - 1) \<le> of_int n \<and> (of_int n :: rat) < 2 ^ ln"
  proof -
    have "of_nat (2 ^ (ln - 1)) \<le> (of_nat (nat n) :: rat)" using bn of_nat_le_iff by blast
    moreover have "(of_nat (nat n) :: rat) < of_nat (2 ^ ln)" using bn of_nat_less_iff by blast
    ultimately show ?thesis using n by simp
  qed
  have rd: "(2::rat) ^ (ld - 1) \<le> of_int d \<and> (of_int d :: rat) < 2 ^ ld"
  proof -
    have "of_nat (2 ^ (ld - 1)) \<le> (of_nat (nat d) :: rat)" using bd of_nat_le_iff by blast
    moreover have "(of_nat (nat d) :: rat) < of_nat (2 ^ ld)" using bd of_nat_less_iff by blast
    ultimately show ?thesis using d by simp
  qed
  define s where "s = int ln - int ld"
  have ps: "power_int (2::rat) s = 2 ^ ln / 2 ^ ld"
    unfolding s_def by (simp add: power_int_diff)
  have ps1: "power_int (2::rat) (s + 1) = 2 * 2 ^ ln / 2 ^ ld"
    using ps by (simp add: power_int_add)
  have psm: "power_int (2::rat) (s - 1) = 2 ^ ln / (2 * 2 ^ ld)"
    using ps by (simp add: power_int_diff)
  have d0: "(0::rat) < of_int d" using d by simp
  have n0: "(0::rat) < of_int n" using n by simp
  have two_ln: "(2::rat) ^ ln = 2 * 2 ^ (ln - 1)" using ln1 by (cases ln) auto
  have two_ld: "(2::rat) ^ ld = 2 * 2 ^ (ld - 1)" using ld1 by (cases ld) auto
  have up: "q < power_int 2 (s + 1)"
  proof -
    have "of_int n * (2::rat) ^ ld < 2 ^ ln * (2 * 2 ^ (ld - 1))"
      using rn two_ld by (simp add: mult_strict_right_mono)
    also have "\<dots> \<le> 2 * 2 ^ ln * of_int d"
      using rd by (simp add: mult_left_mono)
    finally show ?thesis unfolding ps1 q using d0 by (simp add: field_simps)
  qed
  have lo: "power_int 2 (s - 1) < q"
  proof -
    have "(2::rat) ^ ln * of_int d < 2 ^ ln * 2 ^ ld"
      using rd by (simp add: mult_strict_left_mono)
    also have "\<dots> = 2 * 2 ^ (ln - 1) * 2 ^ ld" using two_ln by simp
    also have "\<dots> \<le> 2 * of_int n * 2 ^ ld"
      using rn by (simp add: mult_left_mono mult_right_mono)
    finally show ?thesis unfolding psm q using d0 by (simp add: field_simps)
  qed
  have b: "binade q = (if power_int 2 s \<le> q then s else s - 1)"
    unfolding binade_def nd s_def ln_def ld_def by (simp add: Let_def bitlen_def)
  show ?thesis
  proof (cases "power_int 2 s \<le> q")
    case True
    then show ?thesis using b up by simp
  next
    case False
    then show ?thesis using b lo by simp
  qed
qed

lemma rne_nonneg: "0 \<le> x \<Longrightarrow> 0 \<le> rne x"
  unfolding rne_def Let_def by (auto simp: zero_le_floor)

lemma binade_zero: "binade 0 = - 2"
  by code_simp

lemma overflow_iff_binade:
  assumes "0 \<le> r"
  shows "2 ^ 1024 \<le> r \<longleftrightarrow> 1024 \<le> binade r"
proof
  assume big: "2 ^ 1024 \<le> r"
  then have r0: "0 < r" by (rule less_le_trans[rotated]) simp
  show "1024 \<le> binade r"
  proof (rule ccontr)
    assume "\<not> 1024 \<le> binade r"
    then have "binade r + 1 \<le> 1024" by simp
    then have "power_int (2::rat) (binade r + 1) \<le> power_int 2 1024"
      by (rule power_int_increasing) simp
    then show False using binade_bounds[OF r0] big by simp
  qed
next
  assume b: "1024 \<le> binade r"
  then have "r \<noteq> 0" using binade_zero by auto
  then have r0: "0 < r" using assms by simp
  have "power_int (2::rat) 1024 \<le> power_int 2 (binade r)"
    using b by (rule power_int_increasing) simp
  then show "2 ^ 1024 \<le> r" using binade_bounds[OF r0] by simp
qed

lemma fl64_code [code]:
  "fl64 q =
     (let a = \<bar>q\<bar>;
          e = max (binade a) (- 1022);
          r = of_int (rne (a * power_int 2 (52 - e))) * power_int 2 (e - 52)
      in if 1024 \<le> binade r then (if q < 0 then NegInf else PosInf)
         else Fin (if q < 0 then - r else r))"
proof -
  define e where "e = max (binade \<bar>q\<bar>) (- 1022)"
  define r where "r = of_int (rne (\<bar>q\<bar> * power_int 2 (52 - e))) * power_int (2::rat) (e - 52)"
  have "0 \<le> rne (\<bar>q\<bar> * power_int 2 (52 - e))" by (rule rne_nonneg) simp
  then have "0 \<le> r" unfolding r_def by simp
  then have "2 ^ 1024 \<le> r \<longleftrightarrow> 1024 \<le> binade r" by (rule overflow_iff_binade)
  then show ?thesis unfolding fl64_def Let_def e_def r_def by simp
qed

lemma fl64_unit:
  assumes "0 < q" "q \<le> 1"
  shows "\<exists>r. fl64 q = Fin r \<and> \<bar>r - q\<bar> \<le> 1 / 2 ^ 53"
proof -
  define e where "e = max (binade q) (- 1022)"
  have e0: "e \<le> 0"
  proof -
    have "power_int (2::rat) (binade q) \<le> 1" using binade_bounds[OF assms(1)] assms(2) by simp
    then have "power_int (2::rat) (binade q) \<le> power_int 2 0" by simp
    then have "binade q \<le> 0"
      by (rule power_int_le_imp_le_exp[rotated]) simp_all
    then show ?thesis unfolding e_def by simp
  qed
  define x where "x = q * power_int 2 (52 - e)"
  define r where "r = of_int (rne x) * power_int (2::rat) (e - 52)"
  have pp: "power_int (2::rat) (52 - e) * power_int 2 (e - 52) = 1"
    by (simp flip: power_int_add)
  have ppos: "0 < power_int (2::rat) (e - 52)" by simp
  have "r - q = (of_int (rne x) - x) * power_int 2 (e - 52)"
    unfolding r_def x_def using pp by (simp add: algebra_simps)
  then have "\<bar>r - q\<bar> = \<bar>of_int (rne x) - x\<bar> * power_int 2 (e - 52)"
    using ppos by (simp add: abs_mult)
  also have "\<dots> \<le> 1 / 2 * power_int 2 (e - 52)"
    using rne_error[of x] ppos by (simp add: mult_right_mono)
  also have "\<dots> \<le> 1 / 2 * power_int 2 (- 52)"
  proof -
    have "power_int (2::rat) (e - 52) \<le> power_int 2 (- 52)"
      by (rule power_int_increasing) (use e0 in simp_all)
    then show ?thesis by linarith
  qed
  also have "\<dots> = 1 / 2 ^ 53" by (simp add: power_int_minus field_simps)
  finally have err: "\<bar>r - q\<bar> \<le> 1 / 2 ^ 53" .
  have "(1::rat) / 2 ^ 53 \<le> 1" by simp
  then have "\<bar>r - q\<bar> \<le> 1" using err by linarith
  then have "r \<le> 2" using assms by linarith
  then have small: "\<not> 2 ^ 1024 \<le> r" by simp
  have "fl64 q = Fin r"
    unfolding fl64_def Let_def using assms small by (simp add: r_def x_def e_def)
  then show ?thesis using err by blast
qed

lemma fl64_zero: "fl64 0 = Fin 0"
  by code_simp

lemma fl64_of_nat:
  assumes "n < 2 ^ 53"
  shows "fl64 (of_nat n) = Fin (of_nat n)"
proof (cases "n = 0")
  case True
  then show ?thesis by (simp add: fl64_zero)
next
  case False
  define q :: rat where "q = of_nat n"
  have q1: "1 \<le> q" using False unfolding q_def by (simp add: Suc_le_eq)
  then have q0: "0 < q" by simp
  define e where "e = binade q"
  have b: "power_int 2 e \<le> q" "q < power_int 2 (e + 1)"
    using binade_bounds[OF q0] unfolding e_def by simp_all
  have e0: "0 \<le> e"
  proof (rule ccontr)
    assume "\<not> 0 \<le> e"
    then have "e + 1 \<le> 0" by simp
    then have "power_int (2::rat) (e + 1) \<le> power_int 2 0"
      by (rule power_int_increasing) simp
    then show False using b(2) q1 by simp
  qed
  have "q < 2 ^ 53" using assms unfolding q_def
    by (metis of_nat_less_iff of_nat_numeral of_nat_power)
  then have "power_int (2::rat) e < power_int 2 53" using b(1) by simp
  then have "e < 53" by (rule power_int_le_imp_less_exp[rotated]) simp_all
  then have e52: "e \<le> 52" by simp
  have m: "max e (- 1022) = e" using e0 by simp
  have p1: "power_int (2::rat) (52 - e) = of_int (2 ^ nat (52 - e))"
    using e52 by (simp add: power_int_def)
  have x: "q * power_int 2 (52 - e) = of_int (int n * 2 ^ nat (52 - e))"
    unfolding p1 q_def by simp
  have pp: "power_int (2::rat) (52 - e) * power_int 2 (e - 52) = 1"
    by (simp flip: power_int_add)
  have r: "of_int (rne (q * power_int 2 (52 - e))) * power_int (2::rat) (e - 52) = q"
  proof -
    have "of_int (rne (q * power_int 2 (52 - e))) = q * power_int 2 (52 - e)"
      unfolding x rne_of_int ..
    then show ?thesis using pp by (simp add: mult.assoc)
  qed
  have "q < 2 ^ 1024" using \<open>q < 2 ^ 53\<close> by simp
  then have "fl64 q = Fin q"
    unfolding fl64_def Let_def using q0 r m by (simp add: e_def)
  then show ?thesis unfolding q_def .
qed

lemma lit_0_8_value: "lit_0_8 = Fin (3602879701896397 / 4503599627370496)"
  by code_simp

lemma ratio_gt_0_8:
  assumes "0 < m" "m \<le> 100" "n \<le> m"
  shows "js_gt (js_div (num_of_length n) (num_of_length m)) lit_0_8 \<longleftrightarrow> 4 * m < 5 * n"
proof -
  have n: "num_of_length n = Fin (of_nat n)" unfolding num_of_length_def
    by (rule fl64_of_nat) (use assms in simp)
  have m: "num_of_length m = Fin (of_nat m)" unfolding num_of_length_def
    by (rule fl64_of_nat) (use assms in simp)
  define q :: rat where "q = of_nat n / of_nat m"
  have d: "js_div (num_of_length n) (num_of_length m) = fl64 q"
    unfolding n m q_def using assms by simp
  have m0: "(0::rat) < of_nat m" using assms by simp
  have m100: "(of_nat m :: rat) \<le> 100" using assms by (simp add: of_nat_le_iff[of m 100, where ?'a = rat, simplified])
  show ?thesis
  proof (cases "n = 0")
    case True
    then show ?thesis unfolding d q_def lit_0_8_value
      by (simp add: fl64_zero js_gt_def)
  next
    case False
    have q0: "0 < q" unfolding q_def using False m0 by simp
    have q1: "q \<le> 1" unfolding q_def using assms m0 by simp
    obtain r where r: "fl64 q = Fin r" and "\<bar>r - q\<bar> \<le> 1 / 2 ^ 53"
      using fl64_unit[OF q0 q1] by blast
    then have "\<bar>r - q\<bar> \<le> 1 / 9007199254740992" by simp
    then have rq: "q - 1 / 9007199254740992 \<le> r" "r \<le> q + 1 / 9007199254740992"
      by linarith+
    have step: "1 / 500 \<le> 1 / (5 * (of_nat m :: rat))"
      using m0 m100 by (simp add: field_simps)
    consider (gt) "4 * m < 5 * n" | (eq) "4 * m = 5 * n" | (lt) "5 * n < 4 * m" by linarith
    then show ?thesis
    proof cases
      case gt
      then have "4 * m + 1 \<le> 5 * n" by simp
      then have "(of_nat (4 * m + 1) :: rat) \<le> of_nat (5 * n)" using of_nat_le_iff by blast
      then have "4 * of_nat m + 1 \<le> 5 * (of_nat n :: rat)" by simp
      then have "(4 * of_nat m + 1) / (5 * of_nat m) \<le> 5 * (of_nat n :: rat) / (5 * of_nat m)"
        by (rule divide_right_mono) simp
      moreover have "(4 * of_nat m + 1) / (5 * of_nat m) = 4 / 5 + 1 / (5 * (of_nat m :: rat))"
        using m0 by (simp add: field_simps)
      moreover have "5 * (of_nat n :: rat) / (5 * of_nat m) = q"
        unfolding q_def by simp
      ultimately have "4 / 5 + 1 / (5 * of_nat m) \<le> q" by simp
      then have "4 / 5 + 1 / 500 \<le> q" using step by linarith
      then have "3602879701896397 / 4503599627370496 < r" using rq(1) by linarith
      then show ?thesis unfolding d r lit_0_8_value js_gt_def js_lt.simps using gt by blast
    next
      case eq
      then have "(of_nat (4 * m) :: rat) = of_nat (5 * n)" by simp
      then have "4 * of_nat m = 5 * (of_nat n :: rat)" by simp
      then have "q = 8 / 10" unfolding q_def using m0 by (simp add: field_simps)
      then have "fl64 q = lit_0_8" unfolding lit_0_8_def by (rule arg_cong)
      then show ?thesis unfolding d lit_0_8_value using eq by (simp add: js_gt_def)
    next
      case lt
      then have "5 * n + 1 \<le> 4 * m" by simp
      then have "(of_nat (5 * n + 1) :: rat) \<le> of_nat (4 * m)" using of_nat_le_iff by blast
      then have "5 * (of_nat n :: rat) + 1 \<le> 4 * of_nat m" by simp
      then have "5 * (of_nat n :: rat) / (5 * of_nat m) \<le> (4 * of_nat m - 1) / (5 * of_nat m)"
        by (intro divide_right_mono) simp_all
      moreover have "(4 * of_nat m - 1) / (5 * of_nat m) = 4 / 5 - 1 / (5 * (of_nat m :: rat))"
        using m0 by (simp add: field_simps)
      moreover have "5 * (of_nat n :: rat) / (5 * of_nat m) = q"
        unfolding q_def by simp
      ultimately have "q \<le> 4 / 5 - 1 / (5 * of_nat m)" by simp
      then have "q \<le> 4 / 5 - 1 / 500" using step by linarith
      then have "r < 3602879701896397 / 4503599627370496" using rq(2) by linarith
      then have "\<not> 3602879701896397 / 4503599627370496 < r" by linarith
      then show ?thesis unfolding d r lit_0_8_value js_gt_def js_lt.simps using lt by simp
    qed
  qed
qed

section \<open>Type inference\<close>

lemma exact_ratio_gt_0_8:
  assumes "0 < m"
  shows "(8 / 10 < (of_nat n :: rat) / of_nat m) \<longleftrightarrow> 4 * m < 5 * n"
proof -
  have m0: "(0::rat) < of_nat m" using assms by simp
  have "(8 / 10 < (of_nat n :: rat) / of_nat m) \<longleftrightarrow> (8 / 10 * of_nat m < (of_nat n :: rat))"
    using m0 by (simp add: pos_less_divide_eq)
  also have "\<dots> \<longleftrightarrow> (of_nat (4 * m) :: rat) < of_nat (5 * n)"
    by (simp add: field_simps)
  also have "\<dots> \<longleftrightarrow> 4 * m < 5 * n" by (rule of_nat_less_iff)
  finally show ?thesis .
qed

lemma column_sample_length: "length (column_sample rows column) \<le> 100"
proof -
  have "length (column_sample rows column)
          \<le> length (map (\<lambda>row. row_get row column) (take 100 rows))"
    unfolding column_sample_def by (rule length_filter_le)
  then show ?thesis by simp
qed

lemma infer_column_rule:
  "infer_column Date_parse rows column = classify_rule Date_parse (column_sample rows column)"
proof (cases "column_sample rows column = []")
  case True
  then show ?thesis by (simp add: infer_column_def classify_rule_def)
next
  case False
  define sample where "sample = column_sample rows column"
  define m where "m = length sample"
  define n where "n = length (filter (\<lambda>val. \<not> isNaN (Number val)) sample)"
  define d where "d = length (filter (\<lambda>val. \<not> isNaN (Date_parse val)) sample)"
  have m0: "0 < m" using False unfolding m_def sample_def by simp
  have m100: "m \<le> 100" unfolding m_def sample_def by (rule column_sample_length)
  have nm: "n \<le> m" unfolding n_def m_def by simp
  have dm: "d \<le> m" unfolding d_def m_def by simp
  have num: "js_gt (js_div (num_of_length n) (num_of_length m)) lit_0_8 \<longleftrightarrow> 8 / 10 < numeric_fraction sample"
    unfolding numeric_fraction_def ratio_gt_0_8[OF m0 m100 nm]
    using exact_ratio_gt_0_8[OF m0, of n] by (simp add: n_def m_def isNaN_def)
  have dat: "js_gt (js_div (num_of_length d) (num_of_length m)) lit_0_8 \<longleftrightarrow> 8 / 10 < date_fraction Date_parse sample"
    unfolding date_fraction_def ratio_gt_0_8[OF m0 m100 dm]
    using exact_ratio_gt_0_8[OF m0, of d] by (simp add: d_def m_def isNaN_def)
  have "infer_column Date_parse rows column =
          (if js_gt (js_div (num_of_length n) (num_of_length m)) lit_0_8 then ''numeric''
           else if js_gt (js_div (num_of_length d) (num_of_length m)) lit_0_8 then ''date''
           else ''text'')"
    unfolding infer_column_def Let_def n_def d_def m_def sample_def using False by simp
  also have "\<dots> = classify_rule Date_parse sample"
    unfolding classify_rule_def num dat using False by (simp add: sample_def)
  finally show ?thesis unfolding sample_def .
qed

lemma inferDataTypes_fold:
  "fold (\<lambda>column types. types(column \<mapsto> f column)) cols acc c =
     (if c \<in> set cols then Some (f c) else acc c)"
  by (induction cols arbitrary: acc) auto

lemma inferDataTypes_lookup:
  "inferDataTypes Date_parse rows cols c =
     (if c \<in> set cols then Some (infer_column Date_parse rows c) else None)"
  unfolding inferDataTypes_def by (simp add: inferDataTypes_fold)




section \<open>The parsers\<close>

lemma parseCSV_Inr:
  assumes "parseCSV e file = Inr pd"
  shows "\<exists>results. Papa_parse e (upload_content file) = Complete results
           \<and> results_errors results = []
           \<and> pd = \<lparr>data = results_data results,
                    columns = (case meta_fields results of Some fs \<Rightarrow> fs | None \<Rightarrow> []),
                    rowCount = length (results_data results),
                    preview = take 10 (results_data results)\<rparr>"
  using assms unfolding parseCSV_def
  by (auto simp: Let_def split: papa_outcome.splits if_splits)

lemma parseXLSX_Inr:
  assumes "parseXLSX e file = Inr pd"
  shows "\<exists>headers rows. XLSX_first_sheet e (upload_content file) = JsonData (Some (headers, rows))
           \<and> pd = \<lparr>data = map (row_object headers) rows, columns = headers,
                    rowCount = length rows,
                    preview = take 10 (map (row_object headers) rows)\<rparr>"
  using assms unfolding parseXLSX_def
  by (auto simp: Let_def split: xlsx_outcome.splits option.splits)

lemma parsed_counts:
  assumes "(case ft of Csv \<Rightarrow> parseCSV e file | Xlsx \<Rightarrow> parseXLSX e file) = Inr pd"
  shows "rowCount pd = length (data pd) \<and> preview pd = take 10 (data pd)"
proof (cases ft)
  case Csv
  then have "parseCSV e file = Inr pd" using assms by simp
  from parseCSV_Inr[OF this] show ?thesis by auto
next
  case Xlsx
  then have "parseXLSX e file = Inr pd" using assms by simp
  from parseXLSX_Inr[OF this] show ?thesis by auto
qed

lemma take_min_length: "take (min n (length xs)) xs = take n xs"
  by (simp flip: take_take)

section \<open>Uploads\<close>

lemma uploadFile_Inl:
  assumes "uploadFile e new_id now file st = (Inl err, st')"
  shows "st' = st"
  using assms unfolding uploadFile_def
  by (auto simp: Let_def split: option.splits sum.splits error.splits)

lemma uploadFile_Inr:
  assumes "uploadFile e new_id now file st = (Inr fd, st')"
  shows "\<exists>ft pd. getFileType (upload_name file) = Some ft
           \<and> (case ft of Csv \<Rightarrow> parseCSV e file | Xlsx \<Rightarrow> parseXLSX e file) = Inr pd
           \<and> fd = \<lparr>data = data pd, columns = columns pd, rowCount = rowCount pd,
                    preview = preview pd, fileId = new_id, fileName = upload_name file,
                    fileType = ft, fileSize = upload_size file, uploadedAt = now\<rparr>
           \<and> st' = saveFilesToStorage e (st\<lparr>files := Map_set new_id fd (files st)\<rparr>)"
  using assms unfolding uploadFile_def
  by (auto simp: Let_def split: option.splits sum.splits error.splits)

lemma uploadFile_record_ok:
  assumes "uploadFile e new_id now file st = (Inr fd, st')"
  shows "record_ok fd"
proof -
  obtain ft pd where p: "(case ft of Csv \<Rightarrow> parseCSV e file | Xlsx \<Rightarrow> parseXLSX e file) = Inr pd"
    and fd: "fd = \<lparr>data = data pd, columns = columns pd, rowCount = rowCount pd,
                    preview = preview pd, fileId = new_id, fileName = upload_name file,
                    fileType = ft, fileSize = upload_size file, uploadedAt = now\<rparr>"
    using uploadFile_Inr[OF assms] by blast
  show ?thesis using parsed_counts[OF p] unfolding record_ok_def fd
    by (simp add: take_min_length)
qed

lemma files_saveFilesToStorage [simp]: "files (saveFilesToStorage e st) = files st"
  unfolding saveFilesToStorage_def by simp

lemma set_Map_set: "set (Map_set k v m) \<subseteq> insert (k, v) (set m)"
  by (induction m) auto

lemma set_Map_delete: "set (Map_delete k m) \<subseteq> set m"
  unfolding Map_delete_def by auto

lemma Map_delete_absent: "\<not> Map_has k m \<Longrightarrow> Map_delete k m = m"
  unfolding Map_has_def Map_delete_def by (induction m) auto

lemma map_of_Map_set: "map_of (Map_set k v m) = (map_of m)(k \<mapsto> v)"
  by (induction m) (auto simp: fun_eq_iff)

lemma map_of_Map_delete:
  "map_of (Map_delete d m) k = (if k = d then None else map_of m k)"
  unfolding Map_delete_def by (induction m) auto

lemma getFile_None_iff: "getFile ident st = None \<longleftrightarrow> \<not> Map_has ident (files st)"
  unfolding getFile_def Map_has_def by (simp add: map_of_eq_None_iff)

lemma deleteFile_absent:
  assumes "\<not> Map_has ident (files st)"
  shows "deleteFile e ident st = (False, st)"
  using assms unfolding deleteFile_def by (simp add: Let_def Map_delete_absent)

lemma deleteFile_writes:
  "setItem_calls (snd (deleteFile e ident st))
     = setItem_calls st + (if Map_has ident (files st) then 1 else 0)"
  unfolding deleteFile_def saveFilesToStorage_def by (simp add: Let_def)

lemma getFile_deleteFile:
  "getFile k (snd (deleteFile e d st)) = (if k = d then None else getFile k st)"
  unfolding deleteFile_def getFile_def by (simp add: Let_def map_of_Map_delete)

lemma getFile_uploadFile:
  assumes "uploadFile e new_id now file st = (Inr fd, st')"
  shows "getFile k st' = (if k = new_id then Some fd else getFile k st)"
proof -
  have "st' = saveFilesToStorage e (st\<lparr>files := Map_set new_id fd (files st)\<rparr>)"
    using uploadFile_Inr[OF assms] by blast
  then show ?thesis unfolding getFile_def by (simp add: map_of_Map_set)
qed

section \<open>Sorting\<close>

lemma set_insert_sorted: "set (insert_sorted cmp x ys) = insert x (set ys)"
  by (induction ys) auto

lemma set_js_sort_acc:
  "set (foldl (\<lambda>acc x. insert_sorted cmp x acc) acc xs) = set acc \<union> set xs"
  by (induction xs arbitrary: acc) (auto simp: set_insert_sorted)

lemma set_js_sort: "set (js_sort cmp xs) = set xs"
  unfolding js_sort_def by (simp add: set_js_sort_acc)

lemma set_getFiles: "set (getFiles st) = snd ` set (files st)"
  unfolding getFiles_def by (simp add: set_js_sort)

section \<open>The record invariant\<close>

lemma apply_op_records:
  assumes "\<forall>p \<in> set (files st). record_ok (snd p)"
  shows "\<forall>p \<in> set (files (apply_op e st operation)). record_ok (snd p)"
proof (cases operation)
  case (Upload new_id now upl)
  show ?thesis
  proof (cases "fst (uploadFile e new_id now upl st)")
    case (Inl err)
    then have "uploadFile e new_id now upl st = (Inl err, snd (uploadFile e new_id now upl st))"
      by (simp add: prod_eq_iff)
    then have "snd (uploadFile e new_id now upl st) = st" by (rule uploadFile_Inl)
    then show ?thesis using assms Upload by simp
  next
    case (Inr fd)
    then have u: "uploadFile e new_id now upl st = (Inr fd, snd (uploadFile e new_id now upl st))"
      by (simp add: prod_eq_iff)
    have ok: "record_ok fd" using u by (rule uploadFile_record_ok)
    have "snd (uploadFile e new_id now upl st)
            = saveFilesToStorage e (st\<lparr>files := Map_set new_id fd (files st)\<rparr>)"
      using uploadFile_Inr[OF u] by blast
    then have "set (files (apply_op e st operation)) \<subseteq> insert (new_id, fd) (set (files st))"
      using Upload set_Map_set[of new_id fd "files st"] by simp
    then show ?thesis using assms ok by auto
  qed
next
  case (Delete ident)
  have "set (files (apply_op e st operation)) \<subseteq> set (files st)"
    unfolding Delete using set_Map_delete[of ident "files st"]
    by (simp add: deleteFile_def Let_def)
  then show ?thesis using assms by auto
qed (use assms in simp_all)

lemma run_records:
  assumes "\<forall>p \<in> set (files st). record_ok (snd p)"
  shows "\<forall>p \<in> set (files (run e ops st)). record_ok (snd p)"
  using assms unfolding run_def
proof (induction ops arbitrary: st)
  case Nil
  then show ?case by simp
next
  case (Cons operation ops)
  have "\<forall>p \<in> set (files (apply_op e st operation)). record_ok (snd p)"
    using Cons.prems by (rule apply_op_records)
  then show ?case using Cons.IH by simp
qed

lemma new_store_records: "\<forall>p \<in> set (files new_store). record_ok (snd p)"
  unfolding new_store_def by simp

section \<open>Failed uploads\<close>

text \<open>
  Claim C7. An upload that fails leaves the store as it was: the map of records, every
  record in it, the stored serialization and the number of writes are those before the
  call. An unsupported extension fails before any parser runs, and an error of either
  parser (malformed input, an empty workbook) fails after it; in both cases the store
  returned is the store given.
\<close>

theorem uploadFile_failure_leaves_store:
  "(\<forall>err st'. uploadFile e new_id now file st = (Inl err, st') \<longrightarrow> st' = st)
   \<and> (getFileType (upload_name file) = None \<longrightarrow>
        uploadFile e new_id now file st
          = (Inl (Error ''Unsupported file type. Please upload CSV or XLSX files.''), st))
   \<and> (\<forall>ft message.
        getFileType (upload_name file) = Some ft \<longrightarrow>
        (case ft of Csv \<Rightarrow> parseCSV e file | Xlsx \<Rightarrow> parseXLSX e file) = Inl (Error message) \<longrightarrow>
        uploadFile e new_id now file st
          = (Inl (Error (''Failed to process file: Error: '' @ message)), st))"
proof (intro conjI allI impI)
  fix err st'
  assume "uploadFile e new_id now file st = (Inl err, st')"
  then show "st' = st" by (rule uploadFile_Inl)
next
  assume "getFileType (upload_name file) = None"
  then show "uploadFile e new_id now file st
          = (Inl (Error ''Unsupported file type. Please upload CSV or XLSX files.''), st)"
    unfolding uploadFile_def by simp
next
  fix ft message
  assume "getFileType (upload_name file) = Some ft"
    and "(case ft of Csv \<Rightarrow> parseCSV e file | Xlsx \<Rightarrow> parseXLSX e file) = Inl (Error message)"
  then show "uploadFile e new_id now file st
          = (Inl (Error (''Failed to process file: Error: '' @ message)), st)"
    unfolding uploadFile_def by simp
qed

lemma scenario_A_store_files: "map fst (files scenario_A_store) = [''f1'']"
  by code_simp

lemma report_pdf_type: "getFileType (upload_name report_pdf) = None"
  by code_simp

lemma malformed_csv_type: "getFileType (upload_name malformed_csv) = Some Csv"
  by code_simp

lemma malformed_csv_parse:
  "parseCSV (example_env None) malformed_csv
     = Inl (Error ''CSV parsing error: Quoted field unterminated'')"
  by code_simp

theorem uploadFile_failure_leaves_store_witness:
  "uploadFile (example_env None) ''f2'' 1700000000001 report_pdf scenario_A_store
     = (Inl (Error ''Unsupported file type. Please upload CSV or XLSX files.''), scenario_A_store)
   \<and> uploadFile (example_env None) ''f3'' 1700000000002 malformed_csv scenario_A_store
     = (Inl (Error ''Failed to process file: Error: CSV parsing error: Quoted field unterminated''),
        scenario_A_store)
   \<and> map fst (files scenario_A_store) = [''f1'']"
proof -
  note t1 = uploadFile_failure_leaves_store
    [of "example_env None" "''f2''" 1700000000001 report_pdf scenario_A_store]
  note t2 = uploadFile_failure_leaves_store
    [of "example_env None" "''f3''" 1700000000002 malformed_csv scenario_A_store]
  have a: "uploadFile (example_env None) ''f2'' 1700000000001 report_pdf scenario_A_store
     = (Inl (Error ''Unsupported file type. Please upload CSV or XLSX files.''), scenario_A_store)"
    using t1 report_pdf_type by blast
  have "(case Csv of Csv \<Rightarrow> parseCSV (example_env None) malformed_csv
                   | Xlsx \<Rightarrow> parseXLSX (example_env None) malformed_csv)
          = Inl (Error ''CSV parsing error: Quoted field unterminated'')"
    using malformed_csv_parse by simp
  then have b: "uploadFile (example_env None) ''f3'' 1700000000002 malformed_csv scenario_A_store
     = (Inl (Error (''Failed to process file: Error: '' @ ''CSV parsing error: Quoted field unterminated'')),
        scenario_A_store)"
    using t2 malformed_csv_type by blast
  show ?thesis using a b scenario_A_store_files by simp
qed

section \<open>Deleting an absent record\<close>

text \<open>
  Claim C9. \<^verbatim>\<open>deleteFile\<close> with an id the store does not hold returns \<^verbatim>\<open>false\<close> and the store
  unchanged: the map is the same and nothing is written to the storage. A write is made
  exactly when a record was removed.
\<close>

theorem deleteFile_absent_id:
  "(getFile ident st = None \<longrightarrow> deleteFile e ident st = (False, st))
   \<and> setItem_calls (snd (deleteFile e ident st))
       = setItem_calls st + (if getFile ident st = None then 0 else 1)"
  using deleteFile_absent[of ident st e] deleteFile_writes[of e ident st]
  by (simp add: getFile_None_iff)

lemma scenario_A_store_missing: "getFile ''missing'' scenario_A_store = None"
  by code_simp

theorem deleteFile_absent_id_witness:
  "deleteFile (example_env None) ''missing'' scenario_A_store = (False, scenario_A_store)
   \<and> setItem_calls (snd (deleteFile (example_env None) ''missing'' scenario_A_store))
       = setItem_calls scenario_A_store
   \<and> map fst (files scenario_A_store) = [''f1'']"
  using deleteFile_absent_id[of "''missing''" scenario_A_store "example_env None"]
    scenario_A_store_missing scenario_A_store_files
  by simp

section \<open>Row count and preview\<close>

text \<open>
  Claim C10. The record a successful upload returns has \<^verbatim>\<open>rowCount\<close> equal to the length
  of its data and \<^verbatim>\<open>preview\<close> equal to the first \<open>min 10 rowCount\<close> rows of its data, and it
  is the record the store then holds under the new id. Every record listed or found
  after any sequence of operations satisfies the same, on a new store and on any store
  whose records satisfy it; deleting one record or uploading another leaves every other
  stored record as it was, and listing, lookup, search and statistics leave the store as
  it was.
\<close>

theorem record_invariant:
  "(\<forall>fd st'. uploadFile e new_id now upl st = (Inr fd, st') \<longrightarrow>
       record_ok fd \<and> getFile new_id st' = Some fd)
   \<and> ((\<forall>p \<in> set (files st0). record_ok (snd p)) \<longrightarrow>
         (\<forall>fd \<in> set (getFiles (run e ops st0)). record_ok fd)
         \<and> (\<forall>ident fd. getFile ident (run e ops st0) = Some fd \<longrightarrow> record_ok fd))
   \<and> (\<forall>fd \<in> set (getFiles (run e ops new_store)). record_ok fd)
   \<and> (\<forall>ident fd. getFile ident (run e ops new_store) = Some fd \<longrightarrow> record_ok fd)
   \<and> (\<forall>ident fd. getFile ident st = Some fd \<longrightarrow> ident \<noteq> d \<longrightarrow>
         getFile ident (snd (deleteFile e d st)) = Some fd)
   \<and> (\<forall>ident fd fd' st'. getFile ident st = Some fd \<longrightarrow> ident \<noteq> new_id \<longrightarrow>
         uploadFile e new_id now upl st = (fd', st') \<longrightarrow> getFile ident st' = Some fd)
   \<and> apply_op e st ListFiles = st \<and> apply_op e st (GetFile ident') = st
   \<and> apply_op e st (Search ident' query) = st \<and> apply_op e st (Stats ident') = st"
proof -
  have listed: "\<forall>fd \<in> set (getFiles (run e ops s)). record_ok fd"
    if "\<forall>p \<in> set (files s). record_ok (snd p)" for s
  proof
    fix fd
    assume "fd \<in> set (getFiles (run e ops s))"
    then obtain p where "p \<in> set (files (run e ops s))" and "fd = snd p"
      unfolding set_getFiles by blast
    then show "record_ok fd" using run_records[OF that] by blast
  qed
  have found: "\<forall>ident fd. getFile ident (run e ops s) = Some fd \<longrightarrow> record_ok fd"
    if "\<forall>p \<in> set (files s). record_ok (snd p)" for s
  proof (intro allI impI)
    fix ident fd
    assume "getFile ident (run e ops s) = Some fd"
    then have "(ident, fd) \<in> set (files (run e ops s))"
      unfolding getFile_def by (rule map_of_SomeD)
    then show "record_ok fd" using run_records[OF that] by fastforce
  qed
  have made: "\<forall>fd st'. uploadFile e new_id now upl st = (Inr fd, st') \<longrightarrow>
       record_ok fd \<and> getFile new_id st' = Some fd"
  proof (intro allI impI)
    fix fd st'
    assume u: "uploadFile e new_id now upl st = (Inr fd, st')"
    show "record_ok fd \<and> getFile new_id st' = Some fd"
      using uploadFile_record_ok[OF u] getFile_uploadFile[OF u] by simp
  qed
  have deleted: "\<forall>ident fd. getFile ident st = Some fd \<longrightarrow> ident \<noteq> d \<longrightarrow>
         getFile ident (snd (deleteFile e d st)) = Some fd"
    by (simp add: getFile_deleteFile)
  have uploaded: "\<forall>ident fd fd' st'. getFile ident st = Some fd \<longrightarrow> ident \<noteq> new_id \<longrightarrow>
         uploadFile e new_id now upl st = (fd', st') \<longrightarrow> getFile ident st' = Some fd"
  proof (intro allI impI)
    fix ident fd fd' st'
    assume g: "getFile ident st = Some fd" and n: "ident \<noteq> new_id"
      and u: "uploadFile e new_id now upl st = (fd', st')"
    show "getFile ident st' = Some fd"
    proof (cases fd')
      case (Inl err)
      then have "st' = st" using u uploadFile_Inl by blast
      then show ?thesis using g by simp
    next
      case (Inr r)
      then have "uploadFile e new_id now upl st = (Inr r, st')" using u by simp
      from getFile_uploadFile[OF this] show ?thesis using g n by simp
    qed
  qed
  show ?thesis
    by (intro conjI impI made listed found deleted uploaded new_store_records) simp_all
qed

lemma scenario_A_upload:
  "uploadFile (example_env None) ''f1'' 1700000000000 scenario_A_csv new_store
     = (Inr scenario_A_record, scenario_A_store)"
  by code_simp

lemma example_session_files:
  "getFiles (run (example_env None) example_session new_store) = [scenario_A_record]"
  by code_simp

lemma scenario_A_store_records: "files scenario_A_store = [(''f1'', scenario_A_record)]"
  by code_simp

theorem record_invariant_witness:
  "uploadFile (example_env None) ''f1'' 1700000000000 scenario_A_csv new_store
     = (Inr scenario_A_record, scenario_A_store)
   \<and> record_ok scenario_A_record
   \<and> rowCount scenario_A_record = 3
   \<and> getFile ''f1'' scenario_A_store = Some scenario_A_record
   \<and> getFiles (run (example_env None) example_session new_store) = [scenario_A_record]
   \<and> list_all record_ok (getFiles (run (example_env None) example_session new_store))
   \<and> list_all record_ok (getFiles (run (example_env None) example_session scenario_A_store))
   \<and> getFile ''f1'' (snd (deleteFile (example_env None) ''missing'' scenario_A_store))
       = Some scenario_A_record
   \<and> getFile ''f1''
        (snd (uploadFile (example_env None) ''f9'' 1700000000009 header_only_csv scenario_A_store))
       = Some scenario_A_record"
proof -
  note t = record_invariant
    [where e = "example_env None" and new_id = "''f1''" and now = 1700000000000
       and upl = scenario_A_csv and st = new_store and ops = example_session
       and ?st0.0 = scenario_A_store]
  note t2 = record_invariant
    [where e = "example_env None" and new_id = "''f9''" and now = 1700000000009
       and upl = header_only_csv and st = scenario_A_store and d = "''missing''"]
  note made = t[THEN conjunct1, rule_format]
  note kept = t[THEN conjunct2, THEN conjunct1, THEN mp]
  note listed = t[THEN conjunct2, THEN conjunct2, THEN conjunct1]
  note deleted = t2[THEN conjunct2, THEN conjunct2, THEN conjunct2, THEN conjunct2,
      THEN conjunct1, rule_format]
  note uploaded = t2[THEN conjunct2, THEN conjunct2, THEN conjunct2, THEN conjunct2,
      THEN conjunct2, THEN conjunct1, rule_format]
  have a: "record_ok scenario_A_record \<and> getFile ''f1'' scenario_A_store = Some scenario_A_record"
    using made[OF scenario_A_upload] .
  have s: "\<forall>p \<in> set (files scenario_A_store). record_ok (snd p)"
    using a by (simp add: scenario_A_store_records)
  have b2: "\<forall>fd \<in> set (getFiles (run (example_env None) example_session scenario_A_store)).
              record_ok fd"
    using kept[OF s, THEN conjunct1] .
  have c: "rowCount scenario_A_record = 3" by (simp add: scenario_A_record_def)
  have d: "getFile ''f1'' (snd (deleteFile (example_env None) ''missing'' scenario_A_store))
             = Some scenario_A_record"
    by (rule deleted) (simp_all add: a)
  have u: "getFile ''f1''
        (snd (uploadFile (example_env None) ''f9'' 1700000000009 header_only_csv scenario_A_store))
       = Some scenario_A_record"
    by (rule uploaded[where fd' = "fst (uploadFile (example_env None) ''f9'' 1700000000009
          header_only_csv scenario_A_store)"]) (simp_all add: a)
  show ?thesis using a listed b2 c d u scenario_A_upload example_session_files
    by (simp add: list_all_iff)
qed

section \<open>The order of the listing\<close>

lemma mset_insert_sorted: "mset (insert_sorted cmp x ys) = add_mset x (mset ys)"
  by (induction ys) auto

lemma mset_js_sort_acc:
  "mset (foldl (\<lambda>acc x. insert_sorted cmp x acc) acc xs) = mset acc + mset xs"
  by (induction xs arbitrary: acc) (auto simp: mset_insert_sorted)

lemma mset_js_sort: "mset (js_sort cmp xs) = mset xs"
  unfolding js_sort_def by (simp add: mset_js_sort_acc)

lemma sorted_insert_sorted:
  fixes k :: "'a \<Rightarrow> int"
  assumes "sorted_wrt (\<lambda>a b. k b \<le> k a) ys"
  shows "sorted_wrt (\<lambda>a b. k b \<le> k a) (insert_sorted (\<lambda>a b. k b - k a) x ys)"
  using assms
proof (induction ys)
  case Nil
  then show ?case by simp
next
  case (Cons y ys)
  show ?case
  proof (cases "k y < k x")
    case True
    then have "\<forall>z \<in> set (y # ys). k z \<le> k x" using Cons.prems by auto
    then show ?thesis using True Cons.prems by simp
  next
    case False
    have "sorted_wrt (\<lambda>a b. k b \<le> k a) (insert_sorted (\<lambda>a b. k b - k a) x ys)"
      using Cons by simp
    moreover have "\<forall>z \<in> set (insert_sorted (\<lambda>a b. k b - k a) x ys). k z \<le> k y"
      using False Cons.prems by (auto simp: set_insert_sorted)
    ultimately show ?thesis using False by simp
  qed
qed

lemma filter_insert_sorted:
  fixes k :: "'a \<Rightarrow> int"
  assumes "sorted_wrt (\<lambda>a b. k b \<le> k a) ys"
  shows "filter (\<lambda>f. k f = t) (insert_sorted (\<lambda>a b. k b - k a) x ys)
           = filter (\<lambda>f. k f = t) ys @ (if k x = t then [x] else [])"
  using assms
proof (induction ys)
  case Nil
  then show ?case by simp
next
  case (Cons y ys)
  show ?case
  proof (cases "k y < k x")
    case True
    then have "\<forall>z \<in> set (y # ys). k z < k x" using Cons.prems by auto
    then have "k x = t \<Longrightarrow> filter (\<lambda>f. k f = t) (y # ys) = []"
      by (auto simp: filter_empty_conv)
    then show ?thesis using True by auto
  next
    case False
    then show ?thesis using Cons by simp
  qed
qed

lemma js_sort_acc:
  fixes k :: "'a \<Rightarrow> int"
  assumes "sorted_wrt (\<lambda>a b. k b \<le> k a) acc"
  shows "sorted_wrt (\<lambda>a b. k b \<le> k a) (foldl (\<lambda>acc x. insert_sorted (\<lambda>a b. k b - k a) x acc) acc xs)
         \<and> filter (\<lambda>f. k f = t) (foldl (\<lambda>acc x. insert_sorted (\<lambda>a b. k b - k a) x acc) acc xs)
             = filter (\<lambda>f. k f = t) acc @ filter (\<lambda>f. k f = t) xs"
  using assms
proof (induction xs arbitrary: acc)
  case Nil
  then show ?case by simp
next
  case (Cons x xs)
  have s: "sorted_wrt (\<lambda>a b. k b \<le> k a) (insert_sorted (\<lambda>a b. k b - k a) x acc)"
    using Cons.prems by (rule sorted_insert_sorted)
  show ?case
    using Cons.IH[OF s] filter_insert_sorted[OF Cons.prems, of t x] by simp
qed

lemma js_sort_descending:
  fixes k :: "'a \<Rightarrow> int"
  shows "sorted_wrt (\<lambda>a b. k b \<le> k a) (js_sort (\<lambda>a b. k b - k a) xs)"
  unfolding js_sort_def using js_sort_acc[where k = k and acc = "[]" and xs = xs] by simp

lemma js_sort_stable:
  fixes k :: "'a \<Rightarrow> int"
  shows "filter (\<lambda>f. k f = t) (js_sort (\<lambda>a b. k b - k a) xs) = filter (\<lambda>f. k f = t) xs"
  unfolding js_sort_def using js_sort_acc[where k = k and acc = "[]" and xs = xs and t = t] by simp

text \<open>
  Claim C6, as amended. \<^verbatim>\<open>getFiles\<close> returns the stored records, each once, newest
  \<^verbatim>\<open>uploadedAt\<close> first; records with the same \<^verbatim>\<open>uploadedAt\<close> come in the order of their
  insertion into the map, the earlier-inserted first. The list is a function of the store,
  so repeated calls on the same store give the same list.
\<close>

theorem getFiles_order:
  "sorted_wrt (\<lambda>a b. uploadedAt b \<le> uploadedAt a) (getFiles st)
   \<and> mset (getFiles st) = mset (map snd (files st))
   \<and> (\<forall>t. filter (\<lambda>f. uploadedAt f = t) (getFiles st)
            = filter (\<lambda>f. uploadedAt f = t) (map snd (files st)))"
  unfolding getFiles_def
  by (simp add: js_sort_descending js_sort_stable mset_js_sort)

lemma tie_store_files:
  "map fst (files tie_store) = [''a'', ''b'', ''c'']"
  "map uploadedAt (map snd (files tie_store)) = [1700000000000, 1700000000000, 1700000000005]"
  by code_simp+

lemma tie_store_listing:
  "map fileId (getFiles tie_store) = [''c'', ''a'', ''b'']"
  by code_simp

text \<open>
  The records \<open>a\<close> and \<open>b\<close> hold the same instant and \<open>b\<close> was inserted after \<open>a\<close>; the
  listing has \<open>a\<close> before \<open>b\<close>.
\<close>

theorem getFiles_tie_counterexample:
  "map fst (files tie_store) = [''a'', ''b'', ''c'']
   \<and> map uploadedAt (map snd (files tie_store))
       = [1700000000000, 1700000000000, 1700000000005]
   \<and> map fileId (getFiles tie_store) = [''c'', ''a'', ''b'']"
  using tie_store_files tie_store_listing by blast

theorem getFiles_order_witness:
  "map fileId (filter (\<lambda>f. uploadedAt f = 1700000000000) (getFiles tie_store)) = [''a'', ''b'']
   \<and> map fileId (getFiles tie_store) = [''c'', ''a'', ''b'']
   \<and> sorted_wrt (\<lambda>a b. uploadedAt b \<le> uploadedAt a) (getFiles tie_store)"
proof -
  note t = getFiles_order[of tie_store]
  have "map fileId (filter (\<lambda>f. uploadedAt f = 1700000000000) (map snd (files tie_store)))
          = [''a'', ''b'']"
    by code_simp
  then have a: "map fileId (filter (\<lambda>f. uploadedAt f = 1700000000000) (getFiles tie_store))
          = [''a'', ''b'']"
    using t by simp
  show ?thesis using a tie_store_listing t by blast
qed

section \<open>The numeric checks of the call sites\<close>

lemma classify_numeric_sample:
  assumes "classify_rule Date_parse sample = ''numeric''"
  shows "\<exists>v \<in> set sample. Number v \<noteq> NaN"
proof (rule ccontr)
  assume "\<not> (\<exists>v \<in> set sample. Number v \<noteq> NaN)"
  then have "filter (\<lambda>v. Number v \<noteq> NaN) sample = []" by (simp add: filter_empty_conv)
  then have "numeric_fraction sample = 0" unfolding numeric_fraction_def by simp
  then show False using assms unfolding classify_rule_def by (simp split: if_splits)
qed

lemma classifier_numeric_imp_dashboard:
  assumes "length rows \<le> 50" and "infer_column Date_parse rows col = ''numeric''"
  shows "dashboard_numeric rows col"
proof -
  have "classify_rule Date_parse (column_sample rows col) = ''numeric''"
    using assms(2) by (simp add: infer_column_rule)
  then obtain v where v: "v \<in> set (column_sample rows col)" and n: "Number v \<noteq> NaN"
    using classify_numeric_sample by blast
  from v obtain r where r: "r \<in> set (take 100 rows)" and rv: "v = row_get r col"
    and ne: "v \<noteq> JStr []"
    unfolding column_sample_def by auto
  have "r \<in> set (take 50 rows)" using r assms(1) by simp
  moreover have "numeric_cell r col" unfolding numeric_cell_def isNaN_def using n rv ne by simp
  ultimately show ?thesis unfolding dashboard_numeric_def list_ex_iff by blast
qed

lemma stats_numeric_imp_classifier:
  assumes "rows \<noteq> []" and "stats_numeric rows col"
    and "\<forall>r \<in> set (take 100 rows). row_get r col \<noteq> JNull"
  shows "infer_column Date_parse rows col = ''numeric''"
proof -
  define vals where "vals = map (\<lambda>row. row_get row col) (take 100 rows)"
  have all: "\<forall>v \<in> set vals. Number v \<noteq> NaN \<and> v \<noteq> JStr [] \<and> v \<noteq> JNull"
    using assms(2,3) unfolding vals_def stats_numeric_def numeric_cell_def list_all_iff isNaN_def
    by auto
  then have "\<forall>v \<in> set vals. v \<noteq> JUndefined" by auto
  then have s: "column_sample rows col = vals"
    unfolding column_sample_def vals_def[symmetric] using all by (simp add: filter_id_conv)
  have ne: "vals \<noteq> []" unfolding vals_def using assms(1) by simp
  have "filter (\<lambda>v. Number v \<noteq> NaN) vals = vals" using all by (simp add: filter_id_conv)
  then have "numeric_fraction vals = 1" unfolding numeric_fraction_def using ne by simp
  then have "classify_rule Date_parse vals = ''numeric''"
    unfolding classify_rule_def using ne by simp
  then show ?thesis by (simp add: infer_column_rule s)
qed

text \<open>
  Claim C5, as amended. The call sites do not share one algorithm. The dashboard takes a
  column as numeric when some row of the first 50 holds a cell that is not the empty
  string and that \<^verbatim>\<open>Number\<close> reads; \<^verbatim>\<open>getFileStats\<close> when every row of the first 100 does;
  the classifier when more than 8/10 of the non-empty cells of the first 100 rows are
  read by \<^verbatim>\<open>Number\<close>. They agree one way only: on a table of at most 50 rows a column
  the classifier calls \<^verbatim>\<open>numeric\<close> passes the dashboard's check, and on a non-empty table a
  column without \<^verbatim>\<open>null\<close> cells that passes the check of \<^verbatim>\<open>getFileStats\<close> is classified
  \<^verbatim>\<open>numeric\<close>.
\<close>

theorem numeric_checks_one_way:
  "(length rows \<le> 50 \<longrightarrow> col \<in> set cols \<longrightarrow>
      inferDataTypes Date_parse rows cols col = Some ''numeric'' \<longrightarrow>
      dashboard_numeric rows col)
   \<and> (rows \<noteq> [] \<longrightarrow> col \<in> set cols \<longrightarrow> stats_numeric rows col \<longrightarrow>
        (\<forall>r \<in> set (take 100 rows). row_get r col \<noteq> JNull) \<longrightarrow>
        inferDataTypes Date_parse rows cols col = Some ''numeric'')"
  using classifier_numeric_imp_dashboard[of rows Date_parse col]
    stats_numeric_imp_classifier[of rows col Date_parse]
  by (simp add: inferDataTypes_lookup)

lemma mixed_rows_sample:
  "column_sample mixed_rows ''a'' = map JStr [''1'', ''x'', ''y'']"
  by code_simp

lemma mixed_rows_class:
  "classify_rule example_Date_parse (map JStr [''1'', ''x'', ''y'']) = ''text''"
  by code_simp

lemma mixed_rows_dashboard: "dashboard_numeric mixed_rows ''a''"
  by code_simp

lemma mostly_numeric_sample:
  "column_sample mostly_numeric_rows ''a'' = replicate 9 (JStr ''7'') @ [JStr ''n/a'']"
  by code_simp

lemma mostly_numeric_class:
  "classify_rule example_Date_parse (replicate 9 (JStr ''7'') @ [JStr ''n/a'']) = ''numeric''"
  by code_simp

lemma mostly_numeric_stats: "\<not> stats_numeric mostly_numeric_rows ''a''"
  by code_simp

text \<open>
  A table of three rows whose column the dashboard takes as numeric and the classifier
  calls \<^verbatim>\<open>text\<close>; and a table of ten rows whose column the classifier calls \<^verbatim>\<open>numeric\<close> and
  \<^verbatim>\<open>getFileStats\<close> does not take as numeric.
\<close>

theorem numeric_checks_counterexample:
  "length mixed_rows \<le> 50
   \<and> dashboard_numeric mixed_rows ''a''
   \<and> inferDataTypes example_Date_parse mixed_rows [''a''] ''a'' = Some ''text''
   \<and> length mostly_numeric_rows \<le> 50
   \<and> \<not> stats_numeric mostly_numeric_rows ''a''
   \<and> inferDataTypes example_Date_parse mostly_numeric_rows [''a''] ''a'' = Some ''numeric''"
proof -
  have a: "inferDataTypes example_Date_parse mixed_rows [''a''] ''a'' = Some ''text''"
    by (simp only: inferDataTypes_lookup infer_column_rule mixed_rows_sample mixed_rows_class)
      simp
  have b: "inferDataTypes example_Date_parse mostly_numeric_rows [''a''] ''a'' = Some ''numeric''"
    by (simp only: inferDataTypes_lookup infer_column_rule mostly_numeric_sample
          mostly_numeric_class) simp
  have c: "length mixed_rows \<le> 50" "length mostly_numeric_rows \<le> 50"
    by (simp_all add: mixed_rows_def mostly_numeric_rows_def)
  show ?thesis using a b c mixed_rows_dashboard mostly_numeric_stats by blast
qed

theorem numeric_checks_one_way_witness:
  "length mostly_numeric_rows \<le> 50
   \<and> inferDataTypes example_Date_parse mostly_numeric_rows [''a''] ''a'' = Some ''numeric''
   \<and> dashboard_numeric mostly_numeric_rows ''a''
   \<and> stats_numeric (take 9 mostly_numeric_rows) ''a''
   \<and> inferDataTypes example_Date_parse (take 9 mostly_numeric_rows) [''a''] ''a'' = Some ''numeric''"
proof -
  note t1 = numeric_checks_one_way
    [of mostly_numeric_rows "''a''" "[''a'']" example_Date_parse]
  note t2 = numeric_checks_one_way
    [of "take 9 mostly_numeric_rows" "''a''" "[''a'']" example_Date_parse]
  have b: "inferDataTypes example_Date_parse mostly_numeric_rows [''a''] ''a'' = Some ''numeric''"
    by (simp only: inferDataTypes_lookup infer_column_rule mostly_numeric_sample
          mostly_numeric_class) simp
  have c: "length mostly_numeric_rows \<le> 50" by (simp add: mostly_numeric_rows_def)
  have m: "''a'' \<in> set [''a'']" by simp
  have d: "dashboard_numeric mostly_numeric_rows ''a''" using t1 b c m by blast
  have s: "stats_numeric (take 9 mostly_numeric_rows) ''a''" by code_simp
  have n: "take 9 mostly_numeric_rows \<noteq> []" by code_simp
  have u: "\<forall>r \<in> set (take 100 (take 9 mostly_numeric_rows)). row_get r ''a'' \<noteq> JNull"
    by code_simp
  have e: "inferDataTypes example_Date_parse (take 9 mostly_numeric_rows) [''a''] ''a''
             = Some ''numeric''"
    using t2 s n u m by blast
  show ?thesis using b c d s e by blast
qed

section \<open>The reference CSV reader on plain text\<close>

lemma csv_scan_plain:
  assumes "plain_field f" and "mode = FieldStart \<or> mode = Unquoted"
  shows "csv_scan mode cur fs rs (f @ rest)
           = csv_scan (if f = [] then mode else Unquoted) (cur @ f) fs rs rest"
  using assms
proof (induction f arbitrary: mode cur)
  case Nil
  then show ?case by simp
next
  case (Cons c f)
  have c: "c \<noteq> CHR '',''" "c \<noteq> CHR 0x0A" "c \<noteq> CHR 0x22" and f: "plain_field f"
    using Cons.prems(1) unfolding plain_field_def by simp_all
  have "csv_scan mode cur fs rs ((c # f) @ rest) = csv_scan Unquoted (cur @ [c]) fs rs (f @ rest)"
    using c Cons.prems(2) by auto
  also have "\<dots> = csv_scan Unquoted ((cur @ [c]) @ f) fs rs rest"
    using Cons.IH[OF f, of Unquoted "cur @ [c]"] by simp
  finally show ?case by simp
qed

lemma csv_scan_field_end:
  assumes "plain_field f"
  shows "csv_scan FieldStart [] fs rs (f @ CHR '','' # rest) = csv_scan FieldStart [] (fs @ [f]) rs rest"
    and "csv_scan FieldStart [] fs rs (f @ CHR 0x0A # rest) = csv_scan FieldStart [] [] (rs @ [fs @ [f]]) rest"
  using csv_scan_plain[OF assms, of FieldStart "[]" fs rs] by (cases f; simp)+

lemma csv_scan_record:
  assumes "r \<noteq> []" and "list_all plain_field r"
  shows "csv_scan FieldStart [] fs rs (csv_line r @ CHR 0x0A # rest)
           = csv_scan FieldStart [] [] (rs @ [fs @ r]) rest"
  using assms
proof (induction r arbitrary: fs rule: csv_line.induct)
  case 1
  then show ?case by simp
next
  case (2 f)
  then show ?case by (simp add: csv_scan_field_end)
next
  case (3 f g r)
  have "csv_scan FieldStart [] fs rs (csv_line (f # g # r) @ CHR 0x0A # rest)
          = csv_scan FieldStart [] (fs @ [f]) rs (csv_line (g # r) @ CHR 0x0A # rest)"
    using 3(3) by (simp add: csv_scan_field_end)
  also have "\<dots> = csv_scan FieldStart [] [] (rs @ [(fs @ [f]) @ (g # r)]) rest"
    using 3(1)[of "fs @ [f]"] 3(3) by simp
  finally show ?case by simp
qed

lemma csv_scan_lines:
  assumes "list_all plain_line records"
  shows "csv_scan FieldStart [] [] rs (csv_text records) = Inr (rs @ records @ [[[]]])"
  using assms unfolding csv_text_def
proof (induction records arbitrary: rs)
  case Nil
  then show ?case by simp
next
  case (Cons r records)
  have r: "r \<noteq> []" "list_all plain_field r" using Cons.prems unfolding plain_line_def by simp_all
  have "csv_scan FieldStart [] [] rs (concat (map (\<lambda>r. csv_line r @ [CHR 0x0A]) (r # records)))
          = csv_scan FieldStart [] [] (rs @ [r])
              (concat (map (\<lambda>r. csv_line r @ [CHR 0x0A]) records))"
    using csv_scan_record[OF r, of "[]" rs] by simp
  then show ?case using Cons.IH[of "rs @ [r]"] Cons.prems by simp
qed

lemma Papa_reference_lines:
  assumes "list_all plain_line records"
    and "filter (\<lambda>r. r \<noteq> [[]]) records = hs # lines"
  shows "Papa_reference (csv_text records)
           = Complete \<lparr>results_errors = [], results_data = map (csv_row hs) lines,
                       meta_fields = Some hs\<rparr>"
  unfolding Papa_reference_def using csv_scan_lines[OF assms(1), of "[]"] assms(2) by simp

lemma Papa_reference_csv_text:
  assumes "list_all plain_record (hs # lines)"
  shows "Papa_reference (csv_text (hs # lines))
           = Complete \<lparr>results_errors = [], results_data = map (csv_row hs) lines,
                       meta_fields = Some hs\<rparr>"
proof -
  have "\<forall>r \<in> set (hs # lines). r \<noteq> [[]]"
    using assms unfolding plain_record_def list_all_iff by blast
  then have f: "filter (\<lambda>r. r \<noteq> [[]]) (hs # lines) = hs # lines"
    by (simp add: filter_id_conv)
  have "list_all plain_line (hs # lines)"
    using assms unfolding plain_record_def plain_line_def list_all_iff by blast
  from Papa_reference_lines[OF this f] show ?thesis .
qed

section \<open>CSV parsing\<close>

lemma parseCSV_Complete:
  assumes "Papa_parse e (upload_content upl) = Complete results"
    and "results_errors results = []"
  shows "parseCSV e upl
           = Inr \<lparr>data = results_data results,
                   columns = (case meta_fields results of Some fs \<Rightarrow> fs | None \<Rightarrow> []),
                   rowCount = length (results_data results),
                   preview = take 10 (results_data results)\<rparr>"
  using assms unfolding parseCSV_def by (simp add: Let_def)

lemma example_env_Papa: "Papa_parse (example_env sheet) = Papa_reference"
  unfolding example_env_def by simp

section \<open>Reading a CSV document\<close>

declare Parser_parse.simps(2) [simp del]












section \<open>Guessing the delimiter\<close>

















section \<open>Guessing the line ending\<close>
















section \<open>The table of a CSV document\<close>













text \<open>
  The hypotheses on the header are needed. A header field that repeats an earlier one is
  renamed, and a header in which another candidate splits into more fields than the
  comma does is read with that candidate.
\<close>

lemma repeated_header_renamed:
  "parseCSV library_env
     \<lparr>upload_name = ''twice.csv'', upload_size = 8,
      upload_content = ''a,a'' @ [CHR 0x0A] @ ''1,2'' @ [CHR 0x0A]\<rparr>
     = Inr \<lparr>data = [[(''a'', JStr ''1''), (''a_1'', JStr ''2'')]], columns = [''a'', ''a_1''],
             rowCount = 1, preview = [[(''a'', JStr ''1''), (''a_1'', JStr ''2'')]]\<rparr>"
proof -
  have "guessLineEndings (''a,a'' @ [CHR 0x0A] @ ''1,2'' @ [CHR 0x0A]) = [CHR 0x0A]"
    by (simp add: guessLineEndings_def Let_def)
  moreover have "guessDelimiter (''a,a'' @ [CHR 0x0A] @ ''1,2'' @ [CHR 0x0A]) [CHR 0x0A]
                   = Some (CHR '','')"
    by code_simp
  moreover have "Parser_parse (CHR '','') [CHR 0x0A] FieldStart [] [] []
                   (''a,a'' @ [CHR 0x0A] @ ''1,2'' @ [CHR 0x0A])
                   = Inr [[''a'', ''a''], [''1'', ''2''], [[]]]"
    by code_simp
  moreover have "rename_headers [[''a'', ''a''], [''1'', ''2''], [[]]]
                   = [[''a'', ''a_1''], [''1'', ''2''], [[]]]"
    by code_simp
  ultimately have "Papa_parse_string (''a,a'' @ [CHR 0x0A] @ ''1,2'' @ [CHR 0x0A])
          = Complete \<lparr>results_errors = [],
                      results_data = [[(''a'', JStr ''1''), (''a_1'', JStr ''2'')]],
                      meta_fields = Some [''a'', ''a_1'']\<rparr>"
    unfolding Papa_parse_string_def Let_def
    by (simp add: testEmptyLine_def fieldMismatch_def processRow_def)
  then show ?thesis by (simp add: parseCSV_def library_env_def Let_def)
qed

lemma semicolon_header_split:
  "parseCSV library_env
     \<lparr>upload_name = ''semi.csv'', upload_size = 16,
      upload_content = ''a;b,c;d'' @ [CHR 0x0A] @ ''1;2,3;4'' @ [CHR 0x0A]\<rparr>
     = Inr \<lparr>data = [[(''a'', JStr ''1''), (''b,c'', JStr ''2,3''), (''d'', JStr ''4'')]],
             columns = [''a'', ''b,c'', ''d''], rowCount = 1,
             preview = [[(''a'', JStr ''1''), (''b,c'', JStr ''2,3''), (''d'', JStr ''4'')]]\<rparr>"
proof -
  have "guessLineEndings (''a;b,c;d'' @ [CHR 0x0A] @ ''1;2,3;4'' @ [CHR 0x0A]) = [CHR 0x0A]"
    by (simp add: guessLineEndings_def Let_def)
  moreover have "guessDelimiter (''a;b,c;d'' @ [CHR 0x0A] @ ''1;2,3;4'' @ [CHR 0x0A]) [CHR 0x0A]
                   = Some (CHR '';'')"
    by code_simp
  moreover have "Parser_parse (CHR '';'') [CHR 0x0A] FieldStart [] [] []
                   (''a;b,c;d'' @ [CHR 0x0A] @ ''1;2,3;4'' @ [CHR 0x0A])
                   = Inr [[''a'', ''b,c'', ''d''], [''1'', ''2,3'', ''4''], [[]]]"
    by code_simp
  moreover have "rename_headers [[''a'', ''b,c'', ''d''], [''1'', ''2,3'', ''4''], [[]]]
                   = [[''a'', ''b,c'', ''d''], [''1'', ''2,3'', ''4''], [[]]]"
    by code_simp
  ultimately have "Papa_parse_string (''a;b,c;d'' @ [CHR 0x0A] @ ''1;2,3;4'' @ [CHR 0x0A])
          = Complete \<lparr>results_errors = [],
                      results_data =
                        [[(''a'', JStr ''1''), (''b,c'', JStr ''2,3''), (''d'', JStr ''4'')]],
                      meta_fields = Some [''a'', ''b,c'', ''d'']\<rparr>"
    unfolding Papa_parse_string_def Let_def
    by (simp add: testEmptyLine_def fieldMismatch_def processRow_def)
  then show ?thesis by (simp add: parseCSV_def library_env_def Let_def)
qed

section \<open>A header without data rows\<close>







section \<open>Statistics\<close>

lemma fl64_one: "fl64 1 = Fin 1"
  using fl64_of_nat[of 1] by simp

lemma sum_replicate_ones:
  assumes "m + n < 2 ^ 53"
  shows "foldl js_add (Fin (of_nat m)) (replicate n (Fin 1)) = Fin (of_nat (m + n))"
  using assms
proof (induction n arbitrary: m)
  case 0
  then show ?case by simp
next
  case (Suc n)
  have "js_add (Fin (of_nat m)) (Fin 1) = Fin (of_nat (Suc m))"
    using fl64_of_nat[of "Suc m"] Suc.prems by (simp add: add.commute)
  then show ?case using Suc.IH[of "Suc m"] Suc.prems by simp
qed

lemma blank_cell_cells:
  "numeric_cell [(''k'', JStr ''a''), (''v'', JStr ''1'')] ''v''"
  "\<not> numeric_cell [(''k'', JStr ''a''), (''v'', JStr ''1'')] ''k''"
  "Number (row_get [(''k'', JStr ''a''), (''v'', JStr ''1'')] ''v'') = Fin 1"
  "Number (row_get [(''k'', JStr ''b''), (''v'', JStr '''')] ''v'') = Fin 0"
  by code_simp+

lemma blank_cell_numeric: "stats_numeric blank_cell_rows ''v''" "\<not> stats_numeric blank_cell_rows ''k''"
  unfolding stats_numeric_def blank_cell_rows_def
  by (simp_all add: blank_cell_cells list_all_iff)

lemma blank_cell_values: "column_values blank_cell_rows ''v'' = replicate 100 (Fin 1) @ [Fin 0]"
  unfolding column_values_def blank_cell_rows_def
  by (simp add: blank_cell_cells isNaN_def)

lemma blank_cell_sum:
  "foldl js_add (Fin 0) (replicate 100 (Fin 1)) = Fin 100"
  "fl64 100 = Fin 100"
proof -
  have "foldl js_add (Fin (of_nat 0)) (replicate 100 (Fin 1)) = Fin (of_nat (0 + 100))"
    by (rule sum_replicate_ones) simp
  then show "foldl js_add (Fin 0) (replicate 100 (Fin 1)) = Fin 100" by simp
  show "fl64 100 = Fin 100" using fl64_of_nat[of 100] by simp
qed

lemma blank_cell_min: "Math_min (replicate 100 (Fin 1) @ [Fin 0]) = Fin 0"
  by code_simp

lemma blank_cell_max: "Math_max (replicate 100 (Fin 1) @ [Fin 0]) = Fin 1"
  by code_simp

lemma blank_cell_upload:
  "uploadFile (example_env None) ''f1'' 1700000000000 blank_cell_csv new_store
     = (Inr blank_cell_record, blank_cell_store)"
proof -
  have ty: "getFileType (upload_name blank_cell_csv) = Some Csv" by code_simp
  have pf: "plain_record [''k'', ''v'']" "plain_record [''a'', ''1'']" "plain_record [''b'', '''']"
    by code_simp+
  have pl: "list_all plain_record ([''k'', ''v''] # replicate 100 [''a'', ''1''] @ [[''b'', '''']])"
    using pf by (simp add: list_all_iff)
  have rows: "csv_row [''k'', ''v''] [''a'', ''1''] = [(''k'', JStr ''a''), (''v'', JStr ''1'')]"
    "csv_row [''k'', ''v''] [''b'', ''''] = [(''k'', JStr ''b''), (''v'', JStr '''')]"
    by code_simp+
  have "Papa_parse (example_env None) (upload_content blank_cell_csv)
          = Complete \<lparr>results_errors = [], results_data = blank_cell_rows,
                       meta_fields = Some [''k'', ''v'']\<rparr>"
    using Papa_reference_csv_text[OF pl] rows
    by (simp add: example_env_Papa blank_cell_csv_def blank_cell_rows_def)
  from parseCSV_Complete[OF this]
  have p: "parseCSV (example_env None) blank_cell_csv
             = Inr \<lparr>data = blank_cell_rows, columns = [''k'', ''v''], rowCount = 101,
                     preview = replicate 10 [(''k'', JStr ''a''), (''v'', JStr ''1'')]\<rparr>"
    by (simp add: blank_cell_rows_def)
  have s: "setItem_ok (example_env None) = (\<lambda>_. True)" by (simp add: example_env_def)
  have nm: "upload_name blank_cell_csv = ''blank.csv''" "upload_size blank_cell_csv = 407"
    by (simp_all add: blank_cell_csv_def)
  show ?thesis
    unfolding uploadFile_def ty
    by (simp add: p Let_def saveFilesToStorage_def s new_store_def blank_cell_record_def
          blank_cell_store_def nm)
qed

text \<open>
  Claim C4, at a failing input. The file has 101 data rows; the column \<open>v\<close> holds \<open>1\<close> in
  the first 100 and is blank in the last. \<^verbatim>\<open>getFileStats\<close> takes \<open>v\<close> as numeric from the
  first 100 rows, and \<^verbatim>\<open>Number('')\<close> is 0, not NaN: the blank cell is counted as a zero.
  The statistics report 101 values, minimum 0 and the average 100/101 (rounded), where the
  values that are numbers are 100 ones with the average 1.
\<close>

theorem getFileStats_counts_blank_cell:
  "uploadFile (example_env None) ''f1'' 1700000000000 blank_cell_csv new_store
     = (Inr blank_cell_record, blank_cell_store)
   \<and> row_get (last (data blank_cell_record)) ''v'' = JStr []
   \<and> getFileStats ''f1'' blank_cell_store
       = Some \<lparr>totalRows = 101, totalColumns = 2, numericColumns = 1, textColumns = 1,
                sampleStats = Some \<lparr>stat_column = ''v'', stat_min = Fin 0, stat_max = Fin 1,
                                     stat_avg = Fin (1114752383012499 / 1125899906842624),
                                     stat_count = 101\<rparr>\<rparr>"
proof -
  have l: "row_get (last (data blank_cell_record)) ''v'' = JStr []"
    by (simp add: blank_cell_record_def blank_cell_rows_def row_get_def)
  have n: "num_of_length 101 = Fin 101" unfolding num_of_length_def using fl64_of_nat[of 101] by simp
  have a: "fl64 (100 / 101) = Fin (1114752383012499 / 1125899906842624)" by code_simp
  have cols: "filter (stats_numeric blank_cell_rows) [''k'', ''v''] = [''v'']"
    using blank_cell_numeric by simp
  have "getFileStats ''f1'' blank_cell_store
       = Some \<lparr>totalRows = 101, totalColumns = 2, numericColumns = 1, textColumns = 1,
                sampleStats = Some \<lparr>stat_column = ''v'', stat_min = Fin 0, stat_max = Fin 1,
                                     stat_avg = Fin (1114752383012499 / 1125899906842624),
                                     stat_count = 101\<rparr>\<rparr>"
    unfolding getFileStats_def blank_cell_store_def
    by (simp add: blank_cell_record_def blank_cell_numeric Let_def blank_cell_values
          blank_cell_sum blank_cell_min blank_cell_max n a)
  then show ?thesis using l blank_cell_upload by blast
qed

section \<open>Spreadsheet rows\<close>

lemma map_of_obj_set: "map_of (obj_set k v m) = (map_of m)(k \<mapsto> v)"
  by (induction m) (auto simp: fun_eq_iff)

lemma map_of_foldl_obj_set:
  "map_of (foldl (\<lambda>obj (h, i). obj_set h (g i) obj) acc ps) k
     = (case map_of (rev (map (\<lambda>(h, i). (h, g i)) ps)) k of
          Some v \<Rightarrow> Some v
        | None \<Rightarrow> map_of acc k)"
proof (induction ps arbitrary: acc)
  case Nil
  then show ?case by simp
next
  case (Cons p ps)
  obtain h i where p: "p = (h, i)" by (cases p)
  show ?case
    unfolding p using Cons.IH[of "obj_set h (g i) acc"]
    by (auto simp: map_of_obj_set map_add_def split: option.splits)
qed

lemma row_object_lookup:
  assumes "distinct headers" and "i < length headers"
  shows "row_get (row_object headers row) (headers ! i) = js_or (array_at row i) (JStr [])"
proof -
  define g where "g = (\<lambda>index. js_or (array_at row index) (JStr []))"
  define ps where "ps = map (\<lambda>(h, i). (h, g i)) (zip headers [0 ..< length headers])"
  have ps: "ps = zip headers (map g [0 ..< length headers])"
    unfolding ps_def by (simp add: zip_map2)
  have d: "distinct (map fst ps)" unfolding ps using assms(1) by simp
  have "distinct (map fst (rev ps))" using d by (metis distinct_rev rev_map)
  then have "map_of (rev ps) = map_of ps"
    using d map_of_inject_set[of "rev ps" ps] by simp
  then have "map_of (rev ps) (headers ! i) = map_of ps (headers ! i)" by simp
  also have "\<dots> = Some (map g [0 ..< length headers] ! i)"
    unfolding ps using assms by (intro map_of_zip_nth) simp_all
  also have "\<dots> = Some (g i)" using assms(2) by simp
  finally have "map_of (rev ps) (headers ! i) = Some (g i)" .
  then have "map_of (row_object headers row) (headers ! i) = Some (g i)"
    unfolding row_object_def using map_of_foldl_obj_set[of g "[]" "zip headers [0 ..< length headers]" "headers ! i"]
    by (simp add: g_def ps_def)
  then show ?thesis unfolding row_get_def g_def by simp
qed

lemma zero_cell_parse:
  "parseXLSX (example_env zero_cell_sheet) stock_xlsx
     = Inr \<lparr>data = [[(''item'', JStr ''apple''), (''qty'', JStr [])],
                     [(''item'', JStr ''pear''), (''qty'', JStr [])]],
             columns = [''item'', ''qty''], rowCount = 2,
             preview = [[(''item'', JStr ''apple''), (''qty'', JStr [])],
                        [(''item'', JStr ''pear''), (''qty'', JStr [])]]\<rparr>"
  by code_simp

text \<open>
  Claim C8, at a failing input. The sheet has the header \<open>item, qty\<close> and the row
  \<open>apple, 0\<close>: the row has a cell at the position of \<open>qty\<close>, the number 0. The record
  \<^verbatim>\<open>parseXLSX\<close> builds maps \<open>qty\<close> to the empty string, as it does for the row \<open>pear\<close>
  that has no cell there: \<^verbatim>\<open>row[index] || ''\<close> replaces every falsy cell.
\<close>

theorem parseXLSX_blanks_zero_cell:
  "array_at [JStr ''apple'', JNum (Fin 0)] 1 = JNum (Fin 0)
   \<and> row_get (row_object [''item'', ''qty''] [JStr ''apple'', JNum (Fin 0)]) ''qty'' = JStr []
   \<and> parseXLSX (example_env zero_cell_sheet) stock_xlsx
       = Inr \<lparr>data = [[(''item'', JStr ''apple''), (''qty'', JStr [])],
                       [(''item'', JStr ''pear''), (''qty'', JStr [])]],
               columns = [''item'', ''qty''], rowCount = 2,
               preview = [[(''item'', JStr ''apple''), (''qty'', JStr [])],
                          [(''item'', JStr ''pear''), (''qty'', JStr [])]]\<rparr>"
proof -
  have a: "array_at [JStr ''apple'', JNum (Fin 0)] 1 = JNum (Fin 0)" by code_simp
  have b: "row_get (row_object [''item'', ''qty''] [JStr ''apple'', JNum (Fin 0)]) ''qty'' = JStr []"
    by code_simp
  show ?thesis using a b zero_cell_parse by blast
qed

section \<open>Further properties\<close>

text \<open>
  The threshold test of \<^verbatim>\<open>inferDataTypes\<close>, \<^verbatim>\<open>count / sample.length > 0.8\<close> in binary64
  arithmetic, is the exact test \<open>4 * length < 5 * count\<close> for every sample of at most 100
  cells.
\<close>

theorem threshold_test_exact:
  "0 < m \<Longrightarrow> m \<le> 100 \<Longrightarrow> n \<le> m \<Longrightarrow>
     js_gt (js_div (num_of_length n) (num_of_length m)) lit_0_8 = (4 * m < 5 * n)"
  by (rule ratio_gt_0_8)

theorem threshold_test_exact_witness:
  "\<not> js_gt (js_div (num_of_length 4) (num_of_length 5)) lit_0_8
   \<and> js_gt (js_div (num_of_length 81) (num_of_length 100)) lit_0_8
   \<and> \<not> js_gt (js_div (num_of_length 80) (num_of_length 100)) lit_0_8"
  using threshold_test_exact[of 5 4] threshold_test_exact[of 100 81]
    threshold_test_exact[of 100 80]
  by simp

text \<open>
  With distinct header names, the record of a spreadsheet row maps the header at position
  \<open>i\<close> to the cell at position \<open>i\<close> when that cell is truthy, and to the empty string
  otherwise (a missing cell, \<^verbatim>\<open>0\<close>, \<^verbatim>\<open>false\<close> or the empty string).
\<close>

theorem row_object_cell:
  "distinct headers \<Longrightarrow> i < length headers \<Longrightarrow>
     row_get (row_object headers row) (headers ! i)
       = (if i < length row \<and> truthy (row ! i) then row ! i else JStr [])"
  using row_object_lookup[of headers i row] by (simp add: js_or_def array_at_def)

theorem row_object_cell_witness:
  "row_get (row_object [''item'', ''qty''] [JStr ''apple'', JNum (Fin 7)]) ''qty'' = JNum (Fin 7)
   \<and> row_get (row_object [''item'', ''qty''] [JStr ''pear'']) ''qty'' = JStr []"
  using row_object_cell[of "[''item'', ''qty'']" 1 "[JStr ''apple'', JNum (Fin 7)]"]
    row_object_cell[of "[''item'', ''qty'']" 1 "[JStr ''pear'']"]
  by simp

text \<open>
  \<^verbatim>\<open>deleteFile\<close> returns \<^verbatim>\<open>true\<close> exactly when the store held the id; afterwards the id is
  absent, and a second call returns \<^verbatim>\<open>false\<close> and changes nothing.
\<close>

theorem deleteFile_twice:
  "fst (deleteFile e ident st) = (getFile ident st \<noteq> None)
   \<and> getFile ident (snd (deleteFile e ident st)) = None
   \<and> deleteFile e ident (snd (deleteFile e ident st)) = (False, snd (deleteFile e ident st))"
proof -
  have a: "fst (deleteFile e ident st) = (getFile ident st \<noteq> None)"
    unfolding deleteFile_def by (simp add: Let_def getFile_None_iff)
  have b: "getFile ident (snd (deleteFile e ident st)) = None"
    by (simp add: getFile_deleteFile)
  then have "\<not> Map_has ident (files (snd (deleteFile e ident st)))"
    by (simp add: getFile_None_iff)
  then have "deleteFile e ident (snd (deleteFile e ident st)) = (False, snd (deleteFile e ident st))"
    by (rule deleteFile_absent)
  then show ?thesis using a b by blast
qed

text \<open>
  \<^verbatim>\<open>searchInFile\<close> returns no row for an unknown id, and otherwise the rows of the file
  that match, in their order; the match ignores the case of ASCII letters.
\<close>

theorem searchInFile_rows:
  "(getFile ident st = None \<longrightarrow> searchInFile num_str ident query st = [])
   \<and> (\<forall>fd. getFile ident st = Some fd \<longrightarrow>
         (\<exists>keep. searchInFile num_str ident query st = filter keep (data fd)))
   \<and> searchInFile num_str ident (map to_lower query) st = searchInFile num_str ident query st"
proof -
  have l: "to_lower (to_lower c) = to_lower c" for c
  proof (cases "65 \<le> (of_char c :: nat) \<and> (of_char c :: nat) \<le> 90")
    case True
    then have "(of_char c + 32 :: nat) mod 256 = of_char c + 32" by simp
    then have "(of_char (char_of (of_char c + 32 :: nat)) :: nat) = of_char c + 32" by simp
    then show ?thesis unfolding to_lower_def using True by simp
  next
    case False
    then show ?thesis by (auto simp: to_lower_def)
  qed
  have ll: "map (to_lower \<circ> to_lower) q = map to_lower q" for q
    by (induction q) (simp_all add: l)
  have a: "getFile ident st = None \<longrightarrow> searchInFile num_str ident query st = []"
    unfolding searchInFile_def getFile_def by simp
  have b: "\<forall>fd. getFile ident st = Some fd \<longrightarrow>
         (\<exists>keep. searchInFile num_str ident query st = filter keep (data fd))"
    unfolding searchInFile_def getFile_def by (auto simp: Let_def)
  have c: "searchInFile num_str ident (map to_lower query) st = searchInFile num_str ident query st"
    unfolding searchInFile_def by (simp add: ll split: option.splits)
  show ?thesis using a b c by blast
qed

lemma customer_search:
  "searchInFile (\<lambda>_. []) ''c1'' ''abc'' customer_store
     = [[(''customer'', JStr ''ABC Corp''), (''total'', JStr ''10'')],
        [(''customer'', JStr ''abc-shop''), (''total'', JStr ''30'')]]"
  by code_simp

theorem searchInFile_rows_witness:
  "searchInFile (\<lambda>_. []) ''c1'' ''abc'' customer_store
     = [[(''customer'', JStr ''ABC Corp''), (''total'', JStr ''10'')],
        [(''customer'', JStr ''abc-shop''), (''total'', JStr ''30'')]]
   \<and> searchInFile (\<lambda>_. []) ''c1'' ''ABC'' customer_store
     = searchInFile (\<lambda>_. []) ''c1'' ''abc'' customer_store
   \<and> searchInFile (\<lambda>_. []) ''zz'' ''abc'' customer_store = []"
proof -
  have n: "getFile ''zz'' customer_store = None" by code_simp
  have m: "map to_lower ''ABC'' = ''abc''" by code_simp
  have "searchInFile (\<lambda>_. []) ''c1'' (map to_lower ''ABC'') customer_store
          = searchInFile (\<lambda>_. []) ''c1'' ''ABC'' customer_store"
    using searchInFile_rows[of "''c1''" customer_store "\<lambda>_. []" "''ABC''"] by blast
  then have a: "searchInFile (\<lambda>_. []) ''c1'' ''ABC'' customer_store
          = searchInFile (\<lambda>_. []) ''c1'' ''abc'' customer_store"
    using m by simp
  have b: "searchInFile (\<lambda>_. []) ''zz'' ''abc'' customer_store = []"
    using searchInFile_rows[of "''zz''" customer_store "\<lambda>_. []" "''abc''"] n by blast
  show ?thesis using a b customer_search by blast
qed

text \<open>
  The first scenario: the upload of the CSV text \<open>name,value\<close>, \<open>a,1\<close>, \<open>b,2\<close>, \<open>c,3\<close> makes a
  record with the columns \<open>name\<close>, \<open>value\<close> and three rows, and its statistics take \<open>value\<close>
  as the numeric column with minimum 1, maximum 3, average 2 and count 3.
\<close>

theorem scenario_A_statistics:
  "uploadFile (example_env None) ''f1'' 1700000000000 scenario_A_csv new_store
     = (Inr scenario_A_record, scenario_A_store)
   \<and> columns scenario_A_record = [''name'', ''value'']
   \<and> length (data scenario_A_record) = 3
   \<and> getFileStats ''f1'' scenario_A_store
       = Some \<lparr>totalRows = 3, totalColumns = 2, numericColumns = 1, textColumns = 1,
                sampleStats = Some \<lparr>stat_column = ''value'', stat_min = Fin 1, stat_max = Fin 3,
                                     stat_avg = Fin 2, stat_count = 3\<rparr>\<rparr>"
proof -
  have a: "columns scenario_A_record = [''name'', ''value'']" "length (data scenario_A_record) = 3"
    by (simp_all add: scenario_A_record_def)
  have b: "getFileStats ''f1'' scenario_A_store
       = Some \<lparr>totalRows = 3, totalColumns = 2, numericColumns = 1, textColumns = 1,
                sampleStats = Some \<lparr>stat_column = ''value'', stat_min = Fin 1, stat_max = Fin 3,
                                     stat_avg = Fin 2, stat_count = 3\<rparr>\<rparr>"
    by code_simp
  show ?thesis using a b scenario_A_upload by blast
qed

text \<open>
  The statistics block of \<^verbatim>\<open>getFileStats\<close> is about the first column of the file that
  passes the numeric check; its count is the number of cells of the whole column that
  \<^verbatim>\<open>Number\<close> does not turn into NaN, its average is their sum divided by the count, and the
  block is left out when the count is 0.
\<close>

theorem getFileStats_block:
  "getFile ident st = Some fd \<Longrightarrow>
     (\<exists>s. getFileStats ident st = Some s
        \<and> (case sampleStats s of
              None \<Rightarrow>
                (\<forall>c \<in> set (columns fd). \<not> stats_numeric (data fd) c)
                \<or> column_values (data fd) (hd (filter (stats_numeric (data fd)) (columns fd))) = []
            | Some b \<Rightarrow>
                stat_column b = hd (filter (stats_numeric (data fd)) (columns fd))
                \<and> stat_column b \<in> set (columns fd)
                \<and> stats_numeric (data fd) (stat_column b)
                \<and> stat_count b = length (column_values (data fd) (stat_column b))
                \<and> 0 < stat_count b
                \<and> stat_avg b = js_div (foldl js_add (Fin 0) (column_values (data fd) (stat_column b)))
                                  (num_of_length (stat_count b))))"
proof -
  assume g: "getFile ident st = Some fd"
  define numCols where "numCols = filter (stats_numeric (data fd)) (columns fd)"
  show ?thesis
  proof (cases "numCols = []")
    case True
    then have "\<forall>c \<in> set (columns fd). \<not> stats_numeric (data fd) c"
      unfolding numCols_def by (simp add: filter_empty_conv)
    then show ?thesis
      using g True unfolding getFileStats_def getFile_def numCols_def by (simp add: Let_def)
  next
    case False
    then have "hd numCols \<in> set numCols" by simp
    then have h: "hd numCols \<in> set (columns fd)" "stats_numeric (data fd) (hd numCols)"
      unfolding numCols_def by simp_all
    show ?thesis
    proof (cases "column_values (data fd) (hd numCols) = []")
      case True
      then show ?thesis
        using g False unfolding getFileStats_def getFile_def numCols_def
        by (simp add: Let_def)
    next
      case nonempty: False
      then show ?thesis
        using g False h unfolding getFileStats_def getFile_def numCols_def
        by (simp add: Let_def)
    qed
  qed
qed

theorem getFileStats_block_witness:
  "\<exists>s b. getFileStats ''f1'' scenario_A_store = Some s \<and> sampleStats s = Some b
     \<and> stat_column b = ''value'' \<and> stat_count b = 3
     \<and> stat_avg b = js_div (foldl js_add (Fin 0) [Fin 1, Fin 2, Fin 3]) (num_of_length 3)"
proof -
  have g: "getFile ''f1'' scenario_A_store = Some scenario_A_record" by code_simp
  have v: "column_values (data scenario_A_record) ''value'' = [Fin 1, Fin 2, Fin 3]"
    by code_simp
  have b: "sampleStats (the (getFileStats ''f1'' scenario_A_store))
             = Some \<lparr>stat_column = ''value'', stat_min = Fin 1, stat_max = Fin 3,
                     stat_avg = Fin 2, stat_count = 3\<rparr>"
    by code_simp
  obtain s where s: "getFileStats ''f1'' scenario_A_store = Some s"
    and c: "case sampleStats s of
              None \<Rightarrow>
                (\<forall>c \<in> set (columns scenario_A_record). \<not> stats_numeric (data scenario_A_record) c)
                \<or> column_values (data scenario_A_record)
                     (hd (filter (stats_numeric (data scenario_A_record))
                            (columns scenario_A_record))) = []
            | Some b \<Rightarrow>
                stat_column b
                  = hd (filter (stats_numeric (data scenario_A_record)) (columns scenario_A_record))
                \<and> stat_column b \<in> set (columns scenario_A_record)
                \<and> stats_numeric (data scenario_A_record) (stat_column b)
                \<and> stat_count b = length (column_values (data scenario_A_record) (stat_column b))
                \<and> 0 < stat_count b
                \<and> stat_avg b
                    = js_div (foldl js_add (Fin 0)
                               (column_values (data scenario_A_record) (stat_column b)))
                        (num_of_length (stat_count b))"
    using getFileStats_block[OF g] by blast
  obtain blk where blk: "sampleStats s = Some blk" and col: "stat_column blk = ''value''"
    using b s by simp
  have "stat_count blk = 3 \<and> stat_avg blk = js_div (foldl js_add (Fin 0) [Fin 1, Fin 2, Fin 3]) (num_of_length 3)"
    using c blk col v by (simp add: numeral_3_eq_3)
  then show ?thesis using s blk col by blast
qed

end
